theory Spec2Isabelle
  imports Complex_Main "HOL-Library.Sublist"
begin

section \<open>The faucet bot of \<^verbatim>\<open>src/bot.py\<close>\<close>

text \<open>
  The class \<^verbatim>\<open>SepoliaFaucetBot\<close> talks to four collaborators: the chain RPC
  client, the faucet's HTTP endpoint, the Tor control port and the operating system
  (random bytes, the clock, sleeping, the operator's interrupt). None of them is code of
  the repository, so the model takes their answers from an environment \<open>env\<close>: one
  oracle per primitive, asked with the number of external calls made so far. Every method
  of the class is translated into a function on an explicit world (call counter and trace
  of events) that returns either the raised exception or the returned value.
  \<^verbatim>\<open>print\<close> is modelled as an event that cannot fail.
\<close>

subsection \<open>Data\<close>

type_synonym bytes = string
type_synonym address = string
type_synonym key = string

text \<open>
  The exceptions the code tells apart. \<^verbatim>\<open>except Exception\<close> catches every
  \<open>Exception e\<close> and lets \<open>KeyboardInterrupt\<close> through.
\<close>

datatype exception = ReadTimeout | ConnectionError string | OtherException string

datatype raised = KeyboardInterrupt | Exception exception

record transaction =
  tx_nonce :: int
  tx_to :: address
  tx_value :: int
  tx_gas :: int
  tx_gasPrice :: int

record receipt =
  status :: int
  blockNumber :: int

text \<open>
  What the program does to the outside, in order. A \<open>Print\<close> carries the text of the
  source's format string (without the leading pictogram, the holes left as written).
\<close>

datatype event =
    Print string
  | Sleep nat
  | Urandom
  | TimeTime
  | EthGetBalance address
  | EthGetTransactionCount address
  | EthGasPrice
  | SignTransaction transaction key
  | SendRawTransaction bytes
  | WaitForReceipt bytes
  | TorNewnym
  | HttpPost address

record env =
  os_urandom :: "nat \<Rightarrow> raised + key"
  account_from_key :: "key \<Rightarrow> raised + address"
  time_time :: "nat \<Rightarrow> rat"
  sleep_interrupted :: "nat \<Rightarrow> bool"
  eth_get_balance :: "nat \<Rightarrow> address \<Rightarrow> raised + int"
  eth_get_transaction_count :: "nat \<Rightarrow> address \<Rightarrow> raised + int"
  eth_gas_price :: "nat \<Rightarrow> raised + int"
  from_wei :: "int \<Rightarrow> raised + rat"
  sign_transaction :: "nat \<Rightarrow> transaction \<Rightarrow> key \<Rightarrow> raised + bytes"
  send_raw_transaction :: "nat \<Rightarrow> bytes \<Rightarrow> raised + bytes"
  wait_for_transaction_receipt :: "nat \<Rightarrow> bytes \<Rightarrow> raised + receipt"
  tor_newnym :: "nat \<Rightarrow> raised + unit"
  requests_post :: "nat \<Rightarrow> address \<Rightarrow> raised + (int \<times> bytes)"

text \<open>
  The world outside the program: \<open>calls\<close> counts the external calls made so far and
  \<open>trace\<close> lists the events.
\<close>

record world =
  calls :: nat
  trace :: "event list"

subsection \<open>Statements that may raise\<close>

type_synonym 'a io = "world \<Rightarrow> (raised + 'a) \<times> world"

definition ret :: "'a \<Rightarrow> 'a io" where
  "ret x w = (Inr x, w)"

definition raise :: "raised \<Rightarrow> 'a io" where
  "raise e w = (Inl e, w)"

definition bind_io :: "'a io \<Rightarrow> ('a \<Rightarrow> 'b io) \<Rightarrow> 'b io" where
  "bind_io m f w = (case m w of (Inl e, w') \<Rightarrow> (Inl e, w') | (Inr x, w') \<Rightarrow> f x w')"

definition seq_io :: "unit io \<Rightarrow> 'b io \<Rightarrow> 'b io" where
  "seq_io m k = bind_io m (\<lambda>_. k)"

text \<open>\<^verbatim>\<open>try: m  except Exception as e: h e\<close>\<close>

definition try_except :: "'a io \<Rightarrow> (exception \<Rightarrow> 'a io) \<Rightarrow> 'a io" where
  "try_except m h w = (case m w of (Inl (Exception e), w') \<Rightarrow> h e w' | r \<Rightarrow> r)"

definition emit :: "event \<Rightarrow> world \<Rightarrow> world" where
  "emit ev w = w\<lparr>trace := trace w @ [ev]\<rparr>"

definition print :: "string \<Rightarrow> unit io" where
  "print s w = (Inr (), emit (Print s) w)"

text \<open>An external call: recorded, counted, answered by the oracle.\<close>

definition extern :: "event \<Rightarrow> (nat \<Rightarrow> raised + 'a) \<Rightarrow> 'a io" where
  "extern ev oracle w = (oracle (calls w), (emit ev w)\<lparr>calls := Suc (calls w)\<rparr>)"

text \<open>
  \<^verbatim>\<open>time.sleep(d)\<close> returns, unless the operator's interrupt arrives while it sleeps.
\<close>

definition sleep :: "env \<Rightarrow> nat \<Rightarrow> unit io" where
  "sleep E d =
     extern (Sleep d) (\<lambda>k. if sleep_interrupted E k then Inl KeyboardInterrupt else Inr ())"

text \<open>A library function that may raise but does nothing else.\<close>

definition pure_call :: "raised + 'a \<Rightarrow> 'a io" where
  "pure_call r w = (r, w)"

text \<open>\<^verbatim>\<open>self.request_delay = 1\<close> (line 17).\<close>

definition request_delay :: nat where
  "request_delay = 1"

subsection \<open>Byte strings\<close>

text \<open>Python's \<^verbatim>\<open>needle in haystack\<close> on \<^verbatim>\<open>bytes\<close> and \<^verbatim>\<open>str\<close>.\<close>

fun contains :: "string \<Rightarrow> string \<Rightarrow> bool" where
  "contains needle [] = (needle = [])"
| "contains needle (c # cs) = (prefix needle (c # cs) \<or> contains needle cs)"

subsection \<open>\<^verbatim>\<open>generate_random_account\<close> (lines 32-39)\<close>

definition generate_random_account :: "env \<Rightarrow> (key \<times> address) io" where
  "generate_random_account E =
     bind_io (extern Urandom (os_urandom E)) (\<lambda>private_key.
     bind_io (pure_call (account_from_key E private_key)) (\<lambda>account_address.
     ret (private_key, account_address)))"

subsection \<open>\<^verbatim>\<open>get_balance\<close> (lines 41-49)\<close>

definition get_balance :: "env \<Rightarrow> address \<Rightarrow> rat io" where
  "get_balance E addr =
     try_except
       (bind_io (extern (EthGetBalance addr) (\<lambda>k. eth_get_balance E k addr)) (\<lambda>balance_wei.
        bind_io (pure_call (from_wei E balance_wei)) (\<lambda>balance_eth.
        ret balance_eth)))
       (\<lambda>e. seq_io (print ''Error getting balance for {address}: {e}'') (ret 0))"

subsection \<open>\<^verbatim>\<open>change_tor_identity\<close> (lines 51-68)\<close>

text \<open>
  \<open>change_tor_loop E k\<close> runs the last \<open>k\<close> of the \<^verbatim>\<open>max_attempts = 3\<close> rounds
  of the \<^verbatim>\<open>for\<close> loop, so in round \<open>Suc k\<close> the test \<^verbatim>\<open>attempt < max_attempts - 1\<close> is \<open>0 < k\<close>.
\<close>

primrec change_tor_loop :: "env \<Rightarrow> nat \<Rightarrow> bool io" where
  "change_tor_loop E 0 =
     seq_io (print ''Failed to change Tor identity after maximum attempts - proceeding with current IP'')
       (ret False)"
| "change_tor_loop E (Suc k) =
     bind_io
       (try_except
          (seq_io (extern TorNewnym (tor_newnym E))
          (seq_io (print ''Changed to new Tor identity (unique IP) on attempt {attempt + 1}'')
          (seq_io (sleep E 3)
          (ret True))))
          (\<lambda>e. seq_io (print ''Error changing Tor identity on attempt {attempt + 1}: {e}'')
               (seq_io (if 0 < k
                        then seq_io (print ''Retrying Tor identity change in {self.request_delay} seconds...'')
                               (sleep E request_delay)
                        else ret ())
               (ret False))))
       (\<lambda>changed. if changed then ret True else change_tor_loop E k)"

definition change_tor_identity :: "env \<Rightarrow> bool io" where
  "change_tor_identity E = change_tor_loop E 3"

subsection \<open>\<^verbatim>\<open>request_faucet_funds\<close> (lines 70-126)\<close>

definition request_faucet_funds :: "env \<Rightarrow> address \<Rightarrow> (bool \<times> bytes) io" where
  "request_faucet_funds E addr =
     try_except
       (seq_io (print ''Preparing new IP for faucet request to {address}...'')
       (bind_io (change_tor_identity E) (\<lambda>changed.
        seq_io (if \<not> changed
                then print ''Proceeding with faucet request despite Tor identity change failure''
                else ret ())
       (seq_io (print ''Requesting funds for {address} with new IP...'')
       (bind_io (extern (HttpPost addr) (\<lambda>k. requests_post E k addr)) (\<lambda>(status_code, content).
        seq_io (print ''  Response: {response.status_code}'')
          (if status_code = 200
           then seq_io (print ''Faucet request successful'') (ret (True, content))
           else seq_io (print ''Faucet request failed: {response.status_code}'')
               (seq_io (print ''  Raw response: {response.content}'')
               (ret (False, content))))))))))
       (\<lambda>e. case e of
          ReadTimeout \<Rightarrow>
            seq_io (print ''Error requesting faucet funds: Read timeout after 30 seconds'')
              (ret (False, ''TIMEOUT''))
        | ConnectionError msg \<Rightarrow>
            if contains ''Connection reset by peer'' msg
            then seq_io (print ''Error requesting faucet funds: Connection reset by peer'')
                   (ret (False, ''CONNECTION_RESET''))
            else if contains ''Max retries exceeded with url'' msg
            then seq_io (print ''Error requesting faucet funds: Max retries exceeded with url'')
                   (ret (False, ''MAX_RETRIES_EXCEEDED''))
            else seq_io (print ''Error requesting faucet funds: {e}'') (ret (False, ''''))
        | OtherException msg \<Rightarrow>
            seq_io (print ''Error requesting faucet funds: {e}'') (ret (False, '''')))"

subsection \<open>The branch \<^verbatim>\<open>run_bot\<close> takes on a failed request (lines 278-333)\<close>

text \<open>
  The \<open>FaucetOutcome\<close> tags of the specification. The code has no such type: the tag of a
  failed request is the arm of the \<^verbatim>\<open>if\<close>/\<^verbatim>\<open>elif\<close> chain of lines 278-329 that the
  returned body selects, and \<open>classify\<close> is that chain, test by test, in the source's
  order.
\<close>

datatype outcome =
    Success
  | RateLimited
  | MaxRetriesExceeded
  | TransactionReplaced
  | ReplacementUnderpriced
  | AccessRestricted
  | TemporarilyForbidden
  | Timeout
  | ConnectionReset
  | UnknownFailure

definition classify :: "bytes \<Rightarrow> outcome" where
  "classify response_content =
     (if contains ''MAX_RETRIES_EXCEEDED'' response_content then MaxRetriesExceeded
      else if contains ''TRANSACTION_REPLACED'' response_content then TransactionReplaced
      else if contains ''REPLACEMENT_UNDERPRICED'' response_content then ReplacementUnderpriced
      else if contains ''RATE_LIMIT'' response_content then RateLimited
      else if contains ''Temporarily forbidden due to suspicious requests'' response_content
           then TemporarilyForbidden
      else if contains ''ACCESS_RESTRICTED'' response_content then AccessRestricted
      else if contains ''TIMEOUT'' response_content then Timeout
      else if contains ''CONNECTION_RESET'' response_content then ConnectionReset
      else UnknownFailure)"

subsection \<open>\<^verbatim>\<open>transfer_funds\<close> (lines 157-203)\<close>

text \<open>
  A Python function returns \<^verbatim>\<open>None\<close>, \<^verbatim>\<open>False\<close> or \<^verbatim>\<open>True\<close> here; the callers
  test the result with \<^verbatim>\<open>if\<close>, where \<^verbatim>\<open>None\<close> and \<^verbatim>\<open>False\<close> are both false.
\<close>

definition truthy :: "bool option \<Rightarrow> bool" where
  "truthy r = (r = Some True)"

text \<open>
  In the source the \<^verbatim>\<open>def\<close> of line 157 and its docstring (line 158) are indented as a
  method with its body, but the \<^verbatim>\<open>try:\<close> of line 159 and the matching \<^verbatim>\<open>except\<close> of
  line 201 stand at the indentation of the \<^verbatim>\<open>def\<close> itself (four spaces). The docstring
  is therefore the whole body of the method, and lines 159-203 are a statement of the class
  body. \<open>transfer_funds\<close> is the method as it is written: it reads nothing, builds
  nothing and returns \<^verbatim>\<open>None\<close>. (Python refuses to compile the file as it stands:
  the \<^verbatim>\<open>return\<close> statements of lines 175-203 are outside any function.)
\<close>

definition transfer_funds :: "env \<Rightarrow> key \<Rightarrow> address \<Rightarrow> address \<Rightarrow> rat \<Rightarrow> bool option io" where
  "transfer_funds E from_private_key from_address to_address amount_eth = ret None"

text \<open>
  \<open>transfer_funds_block\<close> is the block of lines 159-203, read as the method's body (one
  indentation level deeper than it is written), with the method's parameters in scope.
\<close>

definition transfer_funds_block :: "env \<Rightarrow> key \<Rightarrow> address \<Rightarrow> address \<Rightarrow> rat \<Rightarrow> bool option io" where
  "transfer_funds_block E from_private_key from_address to_address amount_eth =
     try_except
       (bind_io (extern (EthGetTransactionCount from_address)
                   (\<lambda>k. eth_get_transaction_count E k from_address)) (\<lambda>nonce.
        bind_io (extern EthGasPrice (eth_gas_price E)) (\<lambda>gas_price.
        let gas_limit = 21000;
            gas_cost_wei = gas_limit * gas_price in
        bind_io (pure_call (from_wei E gas_cost_wei)) (\<lambda>gas_cost_eth.
        bind_io (extern (EthGetBalance from_address) (\<lambda>k. eth_get_balance E k from_address)) (\<lambda>balance_wei.
        bind_io (pure_call (from_wei E balance_wei)) (\<lambda>balance_eth.
        let send_amount_wei = balance_wei - gas_cost_wei in
        bind_io (pure_call (from_wei E send_amount_wei)) (\<lambda>send_amount_eth.
        if send_amount_wei \<le> 0
        then seq_io (print ''Insufficient funds for transfer. Balance: {balance_eth:.18f} ETH, Gas cost: {gas_cost_eth:.18f} ETH'')
               (ret (Some False))
        else
          let transaction = \<lparr>tx_nonce = nonce, tx_to = to_address, tx_value = send_amount_wei,
                             tx_gas = gas_limit, tx_gasPrice = gas_price\<rparr> in
          bind_io (extern (SignTransaction transaction from_private_key)
                     (\<lambda>k. sign_transaction E k transaction from_private_key)) (\<lambda>raw_transaction.
          bind_io (extern (SendRawTransaction raw_transaction)
                     (\<lambda>k. send_raw_transaction E k raw_transaction)) (\<lambda>tx_hash.
          seq_io (print ''Transfer initiated! TX Hash: {tx_hash.hex()}'')
         (seq_io (print ''Sent {send_amount_eth:.18f} ETH to {to_address}'')
         (seq_io (print ''Waiting for 1 block confirmation...'')
         (bind_io (extern (WaitForReceipt tx_hash)
                     (\<lambda>k. wait_for_transaction_receipt E k tx_hash)) (\<lambda>tx_receipt.
          if status tx_receipt = 1
          then seq_io (print ''Transfer confirmed! Block: {tx_receipt.blockNumber}'') (ret (Some True))
          else seq_io (print ''Transfer failed!'') (ret (Some False)))))))))))))))
       (\<lambda>e. seq_io (print ''Error transferring funds: {e}'') (ret (Some False)))"

subsection \<open>Loops that may run forever\<close>

text \<open>
  The \<^verbatim>\<open>while True\<close> loops get a bound on the number of rounds (fuel); \<open>None\<close> says that
  the bound was reached before the loop returned.
\<close>

type_synonym 'a iof = "world \<Rightarrow> ((raised + 'a) \<times> world) option"

definition lift :: "'a io \<Rightarrow> 'a iof" where
  "lift m w = Some (m w)"

definition bind_f :: "'a iof \<Rightarrow> ('a \<Rightarrow> 'b iof) \<Rightarrow> 'b iof" where
  "bind_f m f w =
     (case m w of
        None \<Rightarrow> None
      | Some (Inl e, w') \<Rightarrow> Some (Inl e, w')
      | Some (Inr x, w') \<Rightarrow> f x w')"

definition seq_f :: "unit iof \<Rightarrow> 'b iof \<Rightarrow> 'b iof" where
  "seq_f m k = bind_f m (\<lambda>_. k)"

text \<open>The method bound to \<^verbatim>\<open>self.transfer_funds\<close>, applied to its four arguments.\<close>

type_synonym sweep = "key \<Rightarrow> address \<Rightarrow> address \<Rightarrow> rat \<Rightarrow> bool option io"

subsection \<open>The transfer retry loop (lines 142-154, and again lines 216-228)\<close>

text \<open>
  The two loops have the same text. \<^verbatim>\<open>retry_count\<close> is only printed and is left out.
\<close>

fun transfer_retry ::
  "nat \<Rightarrow> env \<Rightarrow> sweep \<Rightarrow> key \<Rightarrow> address \<Rightarrow> address \<Rightarrow> rat \<Rightarrow> rat \<Rightarrow> bool iof" where
  "transfer_retry 0 E tf temp_private_key temp_address recipient_address initial_balance current_balance =
     (\<lambda>w. None)"
| "transfer_retry (Suc n) E tf temp_private_key temp_address recipient_address initial_balance current_balance =
     seq_f (lift (print ''Attempting transfer (Attempt #{retry_count})...''))
    (bind_f (lift (tf temp_private_key temp_address recipient_address current_balance)) (\<lambda>sent.
     if truthy sent
     then seq_f (lift (print ''Funds successfully transferred to recipient!'')) (lift (ret True))
     else seq_f (lift (print ''Transfer failed - retrying in {self.request_delay} seconds...''))
         (seq_f (lift (sleep E request_delay))
         (bind_f (lift (get_balance E temp_address)) (\<lambda>balance.
          if balance \<le> initial_balance
          then seq_f (lift (print ''Funds no longer available - stopping retries'')) (lift (ret False))
          else transfer_retry n E tf temp_private_key temp_address recipient_address
                 initial_balance current_balance)))))"

subsection \<open>\<^verbatim>\<open>check_balance_and_transfer\<close> (lines 128-155)\<close>

text \<open>
  \<open>check_loop E a b k c\<close> runs the last \<open>k\<close> rounds of the \<^verbatim>\<open>for\<close> loop of lines
  132-139 and returns \<^verbatim>\<open>(funds_received, current_balance)\<close>. \<^verbatim>\<open>check_attempts\<close> is a
  count (every call passes the default 10), so it is a \<open>nat\<close>.
\<close>

primrec check_loop :: "env \<Rightarrow> address \<Rightarrow> rat \<Rightarrow> nat \<Rightarrow> rat \<Rightarrow> (bool \<times> rat) io" where
  "check_loop E temp_address initial_balance 0 current_balance = ret (False, current_balance)"
| "check_loop E temp_address initial_balance (Suc k) current_balance =
     bind_io (get_balance E temp_address) (\<lambda>current_balance.
       if current_balance > initial_balance
       then seq_io (print ''Funds received on check {i+1}! Balance: {current_balance} ETH'')
              (ret (True, current_balance))
       else seq_io (print ''Checking balance (Attempt {i+1}/{check_attempts})... Current balance: {current_balance} ETH'')
           (seq_io (sleep E 1)
           (check_loop E temp_address initial_balance k current_balance)))"

definition check_balance_and_transfer ::
  "nat \<Rightarrow> env \<Rightarrow> sweep \<Rightarrow> key \<Rightarrow> address \<Rightarrow> address \<Rightarrow> rat \<Rightarrow> nat \<Rightarrow> bool iof" where
  "check_balance_and_transfer n E tf temp_private_key temp_address recipient_address initial_balance check_attempts =
     bind_f (lift (check_loop E temp_address initial_balance check_attempts 0))
       (\<lambda>(funds_received, current_balance).
          if funds_received
          then transfer_retry n E tf temp_private_key temp_address recipient_address
                 initial_balance current_balance
          else lift (ret False))"

subsection \<open>\<^verbatim>\<open>wait_for_funds_and_transfer\<close> (lines 205-234)\<close>

definition now :: "env \<Rightarrow> rat io" where
  "now E = extern TimeTime (\<lambda>k. Inr (time_time E k))"

fun wait_loop ::
  "nat \<Rightarrow> env \<Rightarrow> sweep \<Rightarrow> key \<Rightarrow> address \<Rightarrow> address \<Rightarrow> rat \<Rightarrow> rat \<Rightarrow> rat \<Rightarrow> bool iof" where
  "wait_loop 0 E tf temp_private_key temp_address recipient_address initial_balance timeout start_time =
     (\<lambda>w. None)"
| "wait_loop (Suc n) E tf temp_private_key temp_address recipient_address initial_balance timeout start_time =
     bind_f (lift (now E)) (\<lambda>t.
     if t - start_time < timeout
     then bind_f (lift (get_balance E temp_address)) (\<lambda>current_balance.
            if current_balance > initial_balance
            then seq_f (lift (print ''Funds received! Balance: {current_balance} ETH''))
                   (transfer_retry n E tf temp_private_key temp_address recipient_address
                      initial_balance current_balance)
            else seq_f (lift (print ''Checking... Current balance: {current_balance} ETH''))
                (seq_f (lift (sleep E 1))
                (wait_loop n E tf temp_private_key temp_address recipient_address
                   initial_balance timeout start_time)))
     else seq_f (lift (print ''Timeout waiting for funds'')) (lift (ret False)))"

definition wait_for_funds_and_transfer ::
  "nat \<Rightarrow> env \<Rightarrow> sweep \<Rightarrow> key \<Rightarrow> address \<Rightarrow> address \<Rightarrow> rat \<Rightarrow> rat \<Rightarrow> bool iof" where
  "wait_for_funds_and_transfer n E tf temp_private_key temp_address recipient_address initial_balance timeout =
     seq_f (lift (print ''Waiting for funds to arrive at {temp_address}...''))
    (bind_f (lift (now E)) (\<lambda>start_time.
     wait_loop n E tf temp_private_key temp_address recipient_address initial_balance timeout start_time))"

subsection \<open>\<^verbatim>\<open>run_bot\<close> (lines 236-343)\<close>

text \<open>
  The local variables of \<^verbatim>\<open>run_bot\<close> that live across cycles (lines 242-245):
  \<open>v_x\<close> is the variable \<^verbatim>\<open>x\<close>, and \<open>None\<close> is Python's \<^verbatim>\<open>None\<close>. No other method
  can reach them, so they are kept apart from the world, and the statements of
  \<^verbatim>\<open>run_bot\<close> work on both.
\<close>

record locals =
  v_cycle :: int
  v_temp_address :: "address option"
  v_temp_private_key :: "key option"
  v_reuse :: bool

type_synonym 'a bot = "locals \<Rightarrow> world \<Rightarrow> ((raised + 'a) \<times> locals \<times> world) option"

definition lift_b :: "'a iof \<Rightarrow> 'a bot" where
  "lift_b m L w = (case m w of None \<Rightarrow> None | Some (r, w') \<Rightarrow> Some (r, L, w'))"

definition bind_b :: "'a bot \<Rightarrow> ('a \<Rightarrow> 'b bot) \<Rightarrow> 'b bot" where
  "bind_b m f L w =
     (case m L w of
        None \<Rightarrow> None
      | Some (Inl e, L', w') \<Rightarrow> Some (Inl e, L', w')
      | Some (Inr x, L', w') \<Rightarrow> f x L' w')"

definition seq_b :: "unit bot \<Rightarrow> 'b bot \<Rightarrow> 'b bot" where
  "seq_b m k = bind_b m (\<lambda>_. k)"

definition do_io :: "'a io \<Rightarrow> 'a bot" where
  "do_io m = lift_b (lift m)"

definition read_var :: "(locals \<Rightarrow> 'a) \<Rightarrow> 'a bot" where
  "read_var f L w = Some (Inr (f L), L, w)"

definition assign :: "(locals \<Rightarrow> locals) \<Rightarrow> unit bot" where
  "assign f L w = Some (Inr (), f L, w)"

text \<open>Lines 251-257: a new account unless the previous cycle asked for reuse.\<close>

definition choose_account :: "env \<Rightarrow> unit bot" where
  "choose_account E =
     bind_b (read_var v_reuse) (\<lambda>reuse.
     if \<not> reuse
     then bind_b (do_io (generate_random_account E)) (\<lambda>(private_key, account_address).
            assign (\<lambda>L. L\<lparr>v_temp_address := Some account_address,
                             v_temp_private_key := Some private_key\<rparr>))
     else seq_b (assign (\<lambda>L. L\<lparr>v_reuse := False\<rparr>))
            (do_io (print ''Reusing address from previous cycle: {temp_address}'')))"

text \<open>
  The statements that end a branch of the inner loop with \<^verbatim>\<open>break\<close>:
  \<^verbatim>\<open>cycle += 1; time.sleep(self.request_delay); break\<close>, after \<^verbatim>\<open>reuse = True\<close> in the
  four reusing branches. The loop returns nothing in the source; here a branch that
  leaves the loop returns its tag (each of them prints its own line), so that a cycle's
  outcome has a name.
\<close>

definition next_cycle :: "env \<Rightarrow> outcome \<Rightarrow> outcome bot" where
  "next_cycle E tag =
     seq_b (assign (\<lambda>L. L\<lparr>v_cycle := v_cycle L + 1\<rparr>))
    (seq_b (do_io (sleep E request_delay))
    (read_var (\<lambda>L. tag)))"

definition reuse_next_cycle :: "env \<Rightarrow> outcome \<Rightarrow> outcome bot" where
  "reuse_next_cycle E tag =
     seq_b (assign (\<lambda>L. L\<lparr>v_reuse := True\<rparr>)) (next_cycle E tag)"

text \<open>Lines 296-310, the branch of \<^verbatim>\<open>RATE_LIMIT\<close>.\<close>

definition rate_limit_branch ::
  "nat \<Rightarrow> env \<Rightarrow> sweep \<Rightarrow> address \<Rightarrow> key \<Rightarrow> address \<Rightarrow> rat \<Rightarrow> outcome bot" where
  "rate_limit_branch n E tf recipient_address private_key addr initial_balance =
     seq_b (do_io (print ''RATE_LIMIT detected - checking balance for 10 times...''))
    (seq_b
      (lift_b
        (bind_f (check_balance_and_transfer n E tf private_key addr recipient_address initial_balance 10)
          (\<lambda>first.
             if first
             then seq_f (lift (print ''Rechecking balance for second time after transfer...''))
                 (bind_f (lift (get_balance E addr)) (\<lambda>initial_balance.
                  bind_f (check_balance_and_transfer n E tf private_key addr recipient_address initial_balance 10)
                    (\<lambda>second.
                       if second
                       then lift (print ''Second transfer successful!'')
                       else lift (print ''No additional funds received on second check''))))
             else lift (print ''No funds received after 10 checks - moving to next cycle with new address''))))
      (next_cycle E RateLimited))"

text \<open>
  The inner \<^verbatim>\<open>while True\<close> of lines 265-333. A branch that ends with \<^verbatim>\<open>break\<close> returns, a
  branch that ends with \<^verbatim>\<open>continue\<close> runs the loop again. The last arm is the
  \<^verbatim>\<open>else\<close> of line 329.
\<close>

fun faucet_loop ::
  "nat \<Rightarrow> env \<Rightarrow> sweep \<Rightarrow> address \<Rightarrow> key \<Rightarrow> address \<Rightarrow> rat \<Rightarrow> outcome bot" where
  "faucet_loop 0 E tf recipient_address private_key addr initial_balance = (\<lambda>L w. None)"
| "faucet_loop (Suc n) E tf recipient_address private_key addr initial_balance =
     bind_b (do_io (request_faucet_funds E addr)) (\<lambda>(success, response_content).
     if success
     then bind_b (lift_b (wait_for_funds_and_transfer n E tf private_key addr recipient_address
                            initial_balance 300))
            (\<lambda>transferred.
               if transferred
               then seq_b (do_io (print ''Cycle #{cycle} completed successfully! Moving to next cycle...''))
                      (next_cycle E Success)
               else seq_b (do_io (print ''Cycle #{cycle} failed at transfer step - retrying same address...''))
                   (seq_b (do_io (sleep E 2))
                   (faucet_loop n E tf recipient_address private_key addr initial_balance)))
     else
       (case classify response_content of
          MaxRetriesExceeded \<Rightarrow>
            seq_b (do_io (print ''Max retries exceeded with url detected - reusing address in next cycle''))
              (reuse_next_cycle E MaxRetriesExceeded)
        | TransactionReplaced \<Rightarrow>
            seq_b (do_io (print ''TRANSACTION_REPLACED detected - reusing address in next cycle''))
              (reuse_next_cycle E TransactionReplaced)
        | ReplacementUnderpriced \<Rightarrow>
            seq_b (do_io (print ''REPLACEMENT_UNDERPRICED detected - reusing address in next cycle''))
              (reuse_next_cycle E ReplacementUnderpriced)
        | RateLimited \<Rightarrow>
            rate_limit_branch n E tf recipient_address private_key addr initial_balance
        | TemporarilyForbidden \<Rightarrow>
            seq_b (do_io (print ''Temporarily forbidden due to suspicious requests detected - reusing address in next cycle''))
              (reuse_next_cycle E TemporarilyForbidden)
        | AccessRestricted \<Rightarrow>
            seq_b (do_io (print ''ACCESS_RESTRICTED detected - retrying same address in {self.request_delay} seconds...''))
           (seq_b (do_io (sleep E request_delay))
              (faucet_loop n E tf recipient_address private_key addr initial_balance))
        | Timeout \<Rightarrow>
            seq_b (do_io (print ''Request timeout detected - retrying same address in {self.request_delay} seconds...''))
           (seq_b (do_io (sleep E request_delay))
              (faucet_loop n E tf recipient_address private_key addr initial_balance))
        | ConnectionReset \<Rightarrow>
            seq_b (do_io (print ''Connection reset detected - retrying same address in {self.request_delay} seconds...''))
           (seq_b (do_io (sleep E request_delay))
              (faucet_loop n E tf recipient_address private_key addr initial_balance))
        | _ \<Rightarrow>
            seq_b (do_io (print ''Cycle #{cycle} failed at faucet request''))
              (next_cycle E UnknownFailure)))"

text \<open>
  The body of the \<^verbatim>\<open>try\<close> of one round of the outer loop (lines 249-335). Line 260
  calls \<^verbatim>\<open>temp_private_key.startswith\<close>, which raises \<^verbatim>\<open>AttributeError\<close> on
  \<^verbatim>\<open>None\<close>; the two variables are assigned together (lines 253-254), so they are
  \<^verbatim>\<open>None\<close> together.
\<close>

definition cycle_body :: "nat \<Rightarrow> env \<Rightarrow> sweep \<Rightarrow> address \<Rightarrow> outcome bot" where
  "cycle_body n E tf recipient_address =
     seq_b (do_io (print ''Cycle #{cycle}''))
    (seq_b (choose_account E)
    (seq_b (do_io (print ''Generated temporary address: {temp_address}''))
    (bind_b (read_var v_temp_address) (\<lambda>temp_address.
     bind_b (read_var v_temp_private_key) (\<lambda>temp_private_key.
     case (temp_address, temp_private_key) of
       (Some addr, Some private_key) \<Rightarrow>
          seq_b (do_io (print ''Private key: {temp_private_key}''))
         (bind_b (do_io (get_balance E addr)) (\<lambda>initial_balance.
          seq_b (do_io (print ''Initial balance: {initial_balance} ETH''))
         (bind_b (faucet_loop n E tf recipient_address private_key addr initial_balance) (\<lambda>tag.
          seq_b (do_io (print ''Next cycle in {self.request_delay} seconds...''))
            (read_var (\<lambda>L. tag))))))
     | _ \<Rightarrow> do_io (raise (Exception (OtherException ''AttributeError''))))))))"

text \<open>
  The outer \<^verbatim>\<open>while True\<close> with its two handlers (lines 247-343): the operator's
  interrupt ends the loop, any other exception of the round is printed and the loop goes
  on after a sleep.
\<close>

fun run_loop :: "nat \<Rightarrow> env \<Rightarrow> sweep \<Rightarrow> address \<Rightarrow> unit bot" where
  "run_loop 0 E tf recipient_address = (\<lambda>L w. None)"
| "run_loop (Suc n) E tf recipient_address = (\<lambda>L w.
     case cycle_body n E tf recipient_address L w of
       None \<Rightarrow> None
     | Some (Inr tag, L', w') \<Rightarrow> run_loop n E tf recipient_address L' w'
     | Some (Inl KeyboardInterrupt, L', w') \<Rightarrow> do_io (print ''Bot stopped by user'') L' w'
     | Some (Inl (Exception e), L', w') \<Rightarrow>
         seq_b (do_io (print ''Unexpected error in cycle #{cycle}: {e}''))
        (seq_b (do_io (print ''Retrying in {self.request_delay} seconds...''))
        (seq_b (do_io (sleep E request_delay))
        (run_loop n E tf recipient_address))) L' w')"

text \<open>
  \<^verbatim>\<open>run_bot\<close> starts the loop with the values of lines 242-245. The method the class
  binds to \<^verbatim>\<open>self.transfer_funds\<close> is a parameter \<open>tf\<close> of the loops; the program as it
  is written is \<open>run_bot n E (transfer_funds E)\<close>.
\<close>

definition run_bot :: "nat \<Rightarrow> env \<Rightarrow> sweep \<Rightarrow> address \<Rightarrow> unit bot" where
  "run_bot n E tf recipient_address =
     seq_b (do_io (print ''Starting Sepolia Faucet Bot''))
    (seq_b (do_io (print ''Recipient address: {recipient_address}''))
    (seq_b (do_io (print ''{=*50}''))
    (seq_b (assign (\<lambda>L. \<lparr>v_cycle = 1, v_temp_address = None,
                            v_temp_private_key = None, v_reuse = False\<rparr>))
    (run_loop n E tf recipient_address))))"

section \<open>Reference definitions\<close>

subsection \<open>The precedence of the markers\<close>

text \<open>
  The markers in the order in which a failed request's body is to be searched for them,
  each with its tag, and the tag of the first marker of that list that the body contains.
\<close>

definition precedence :: "(string \<times> outcome) list" where
  "precedence =
     [(''MAX_RETRIES_EXCEEDED'', MaxRetriesExceeded),
      (''TRANSACTION_REPLACED'', TransactionReplaced),
      (''REPLACEMENT_UNDERPRICED'', ReplacementUnderpriced),
      (''RATE_LIMIT'', RateLimited),
      (''Temporarily forbidden due to suspicious requests'', TemporarilyForbidden),
      (''ACCESS_RESTRICTED'', AccessRestricted),
      (''TIMEOUT'', Timeout),
      (''CONNECTION_RESET'', ConnectionReset)]"

definition first_marker :: "bytes \<Rightarrow> outcome" where
  "first_marker body =
     (case find (\<lambda>(marker, tag). contains marker body) precedence of
        Some (marker, tag) \<Rightarrow> tag
      | None \<Rightarrow> UnknownFailure)"

subsection \<open>Sample environments\<close>

text \<open>
  The conversion of the chain client's library, for the unit \<^verbatim>\<open>ether\<close>: zero is
  returned as it is, a value outside \<open>1 .. 2\<^sup>2\<^sup>5\<^sup>6 - 1\<close> raises \<^verbatim>\<open>ValueError\<close>.
\<close>

definition lib_from_wei :: "int \<Rightarrow> raised + rat" where
  "lib_from_wei n =
     (if n = 0 then Inr 0
      else if n < 1 \<or> n > 2 ^ 256 - 1 then Inl (Exception (OtherException ''ValueError''))
      else Inr (of_int n / 10 ^ 18))"

text \<open>
  An environment in which nothing fails and nothing arrives: the faucet answers 500 with
  an empty body, the balance of every address is 0, the random source always returns the
  same key.
\<close>

definition idle_env :: env where
  "idle_env =
     \<lparr>os_urandom = (\<lambda>k. Inr ''11''),
      account_from_key = (\<lambda>k. Inr (''0x'' @ k)),
      time_time = (\<lambda>k. of_nat k),
      sleep_interrupted = (\<lambda>k. False),
      eth_get_balance = (\<lambda>k a. Inr 0),
      eth_get_transaction_count = (\<lambda>k a. Inr 0),
      eth_gas_price = (\<lambda>k. Inr 1000000000),
      from_wei = lib_from_wei,
      sign_transaction = (\<lambda>k t pk. Inr ''signed''),
      send_raw_transaction = (\<lambda>k raw. Inr ''hash''),
      wait_for_transaction_receipt = (\<lambda>k h. Inr \<lparr>status = 1, blockNumber = 7\<rparr>),
      tor_newnym = (\<lambda>k. Inr ()),
      requests_post = (\<lambda>k a. Inr (500, []))\<rparr>"

definition w0 :: world where
  "w0 = \<lparr>calls = 0, trace = []\<rparr>"

text \<open>The faucet cannot be reached.\<close>

definition refused_env :: env where
  "refused_env =
     idle_env\<lparr>requests_post :=
       (\<lambda>k a. Inl (Exception (ConnectionError ''HTTPSConnectionPool: Max retries exceeded with url: /api'')))\<rparr>"

text \<open>The chain RPC endpoint is down.\<close>

definition rpc_down_env :: env where
  "rpc_down_env =
     idle_env\<lparr>eth_get_balance := (\<lambda>k a. Inl (Exception (OtherException ''503 Service Unavailable'')))\<rparr>"

text \<open>Every address holds one ether.\<close>

definition funded_env :: env where
  "funded_env = idle_env\<lparr>eth_get_balance := (\<lambda>k a. Inr 1000000000000000000)\<rparr>"

text \<open>Every address holds nothing for the first four external calls, then 1.5 ether.\<close>

definition arriving_env :: env where
  "arriving_env =
     idle_env\<lparr>eth_get_balance := (\<lambda>k a. if k < 4 then Inr 0 else Inr 1500000000000000000)\<rparr>"

subsection \<open>Observations on a run\<close>

text \<open>
  The external calls of a trace (everything but the printed lines), the number of sweep
  attempts it announces (line 145 and line 219 print the same line before every call of
  \<^verbatim>\<open>self.transfer_funds\<close>), and the value \<^verbatim>\<open>get_balance\<close> returns when it is the
  \<open>k\<close>-th external call.
\<close>

fun is_print :: "event \<Rightarrow> bool" where
  "is_print (Print s) = True"
| "is_print ev = False"

definition calls_made :: "world \<Rightarrow> event list" where
  "calls_made w = filter (\<lambda>ev. \<not> is_print ev) (trace w)"

definition attempt_line :: string where
  "attempt_line = ''Attempting transfer (Attempt #{retry_count})...''"

definition sweep_attempts :: "world \<Rightarrow> nat" where
  "sweep_attempts w = length (filter (\<lambda>ev. ev = Print attempt_line) (trace w))"

definition balance_read :: "env \<Rightarrow> address \<Rightarrow> nat \<Rightarrow> raised + rat" where
  "balance_read E addr k = fst (get_balance E addr \<lparr>calls = k, trace = []\<rparr>)"

text \<open>
  The next \<open>N\<close> rounds of the bounded poll, started at call \<open>c\<close>, are quiet: no balance
  read exceeds the baseline, and the operator interrupts neither a read nor a sleep.
\<close>

definition quiet_reads :: "env \<Rightarrow> address \<Rightarrow> rat \<Rightarrow> nat \<Rightarrow> nat \<Rightarrow> bool" where
  "quiet_reads E addr initial_balance c N =
     (\<forall>k<N. (\<exists>b. balance_read E addr (c + 2 * k) = Inr b \<and> b \<le> initial_balance)
            \<and> \<not> sleep_interrupted E (c + 2 * k + 1))"

text \<open>The number of balance reads for an address in a trace, and after a run.\<close>

definition balance_reads :: "address \<Rightarrow> world \<Rightarrow> nat" where
  "balance_reads addr w = length (filter (\<lambda>ev. ev = EthGetBalance addr) (trace w))"

definition reads_after ::
  "address \<Rightarrow> ((raised + 'a) \<times> locals \<times> world) option \<Rightarrow> ((raised + 'a) \<times> nat) option" where
  "reads_after addr r = map_option (\<lambda>(res, L, w). (res, balance_reads addr w)) r"

subsection \<open>Further sample values\<close>

text \<open>The local variables as \<^verbatim>\<open>run_bot\<close> sets them before its loop.\<close>

definition L0 :: locals where
  "L0 = \<lparr>v_cycle = 1, v_temp_address = None, v_temp_private_key = None, v_reuse = False\<rparr>"

text \<open>The faucet answers every request with a rate limit.\<close>

definition rate_limited_env :: env where
  "rate_limited_env = idle_env\<lparr>requests_post := (\<lambda>k a. Inr (429, ''{code: RATE_LIMIT}''))\<rparr>"

text \<open>A sweep method that reports success without doing anything.\<close>

definition instant_sweep :: sweep where
  "instant_sweep from_private_key from_address to_address amount_eth = ret (Some True)"

subsection \<open>Reuse and renewal of the account\<close>

text \<open>
  The tags after which the next cycle is to reuse the account, and those after which it is
  to take a new one.
\<close>

definition reuse_tags :: "outcome set" where
  "reuse_tags = {MaxRetriesExceeded, TransactionReplaced, ReplacementUnderpriced, TemporarilyForbidden}"

definition fresh_tags :: "outcome set" where
  "fresh_tags = {Success, UnknownFailure, RateLimited}"

text \<open>
  What a round leaves behind: its result, the address in \<^verbatim>\<open>temp_address\<close> and the number
  of keys drawn from the random source so far. \<open>next_round\<close> runs one more round of the
  outer loop from where a round that ended without exception left off.
\<close>

definition account_after ::
  "((raised + 'a) \<times> locals \<times> world) option \<Rightarrow> ((raised + 'a) \<times> address option \<times> nat) option" where
  "account_after r =
     map_option (\<lambda>(res, L, w). (res, v_temp_address L, length (filter (\<lambda>ev. ev = Urandom) (trace w)))) r"

definition next_round ::
  "nat \<Rightarrow> env \<Rightarrow> sweep \<Rightarrow> address \<Rightarrow> ((raised + outcome) \<times> locals \<times> world) option
     \<Rightarrow> ((raised + outcome) \<times> locals \<times> world) option" where
  "next_round n E tf recipient_address previous =
     (case previous of
        Some (Inr tag, L, w) \<Rightarrow> cycle_body n E tf recipient_address L w
      | _ \<Rightarrow> None)"

text \<open>The faucet answers 500 with TRANSACTION_REPLACED.\<close>

definition replaced_env :: env where
  "replaced_env = idle_env\<lparr>requests_post := (\<lambda>k a. Inr (500, ''TRANSACTION_REPLACED''))\<rparr>"

text \<open>The random source returns one key at the first external call and another afterwards.\<close>

definition two_keys_env :: env where
  "two_keys_env = idle_env\<lparr>os_urandom := (\<lambda>k. Inr (if k = 0 then ''11'' else ''22''))\<rparr>"

text \<open>
  The random source fails at the first external call, and the operator interrupts every
  later call of it.
\<close>

definition no_entropy_env :: env where
  "no_entropy_env =
     idle_env\<lparr>os_urandom :=
       (\<lambda>k. if k = 0 then Inl (Exception (OtherException ''NotImplementedError''))
            else Inl KeyboardInterrupt)\<rparr>"

text \<open>The events that sign or broadcast a transaction.\<close>

fun is_chain_write :: "event \<Rightarrow> bool" where
  "is_chain_write (SignTransaction t k) = True"
| "is_chain_write (SendRawTransaction raw) = True"
| "is_chain_write ev = False"

definition chain_writes :: "world \<Rightarrow> event list" where
  "chain_writes w = filter is_chain_write (trace w)"

section \<open>Properties\<close>

lemmas io_defs = bind_io_def seq_io_def try_except_def ret_def raise_def print_def emit_def
  extern_def sleep_def pure_call_def

subsection \<open>Byte strings\<close>

lemma contains_sublist: "contains needle hay \<longleftrightarrow> sublist needle hay"
  by (induction hay) (auto simp: sublist_Cons_right)

subsection \<open>The faucet client\<close>

lemma change_tor_loop_returns:
  assumes "\<forall>k. tor_newnym E k \<noteq> Inl KeyboardInterrupt" and "\<forall>k. \<not> sleep_interrupted E k"
  shows "fst (change_tor_loop E n w) \<noteq> Inl x"
proof (induction n arbitrary: w)
  case 0
  then show ?case by (simp add: io_defs)
next
  case (Suc n)
  show ?case
  proof (cases "tor_newnym E (calls w)")
    case (Inr u)
    then show ?thesis using assms by (simp add: io_defs)
  next
    case (Inl y)
    then obtain e where e: "tor_newnym E (calls w) = Inl (Exception e)"
      using assms(1) by (cases y) auto
    show ?thesis
      using e assms(2) Suc.IH by (simp add: io_defs request_delay_def)
  qed
qed

lemma request_faucet_funds_connection_error:
  assumes post: "\<forall>k. requests_post E k addr = Inl (Exception (ConnectionError msg))"
    and tor: "\<forall>k. tor_newnym E k \<noteq> Inl KeyboardInterrupt"
    and sl: "\<forall>k. \<not> sleep_interrupted E k"
  shows "fst (request_faucet_funds E addr w) =
           Inr (False, if contains ''Connection reset by peer'' msg then ''CONNECTION_RESET''
                       else if contains ''Max retries exceeded with url'' msg then ''MAX_RETRIES_EXCEEDED''
                       else [])"
proof -
  let ?w1 = "emit (Print ''Preparing new IP for faucet request to {address}...'') w"
  obtain r w' where r: "change_tor_loop E 3 ?w1 = (r, w')"
    by (cases "change_tor_loop E 3 ?w1")
  with change_tor_loop_returns [OF tor sl, of 3 ?w1]
  obtain b where "r = Inr b" by (cases r) auto
  with r show ?thesis
    using post
    by (simp add: request_faucet_funds_def change_tor_identity_def bind_io_def seq_io_def
          try_except_def ret_def print_def extern_def)
qed

text \<open>
  C2, as the claim states it, fails. The claim assigns MaxRetriesExceeded to a returned
  body that contains the phrase "Max retries exceeded with url". The faucet answers 503
  with that phrase as its body: \<^verbatim>\<open>request_faucet_funds\<close> returns the body unchanged,
  the body contains the phrase, and the branch taken is the final \<^verbatim>\<open>else\<close>
  (UnknownFailure), because \<^verbatim>\<open>run_bot\<close> looks for \<^verbatim>\<open>MAX_RETRIES_EXCEEDED\<close>.
\<close>

theorem max_retries_phrase_counterexample:
  "fst (request_faucet_funds
          (idle_env\<lparr>requests_post := (\<lambda>k a. Inr (503, ''Max retries exceeded with url''))\<rparr>)
          ''0xA'' w0)
     = Inr (False, ''Max retries exceeded with url'')
   \<and> contains ''Max retries exceeded with url'' ''Max retries exceeded with url''
   \<and> classify ''Max retries exceeded with url'' = UnknownFailure"
  by (simp add: classify_def request_faucet_funds_def change_tor_identity_def io_defs
        idle_env_def w0_def numeral_3_eq_3)

text \<open>
  C2, amended: the tag of a failed request is assigned by searching the returned body for
  literal markers, and the marker of MaxRetriesExceeded is \<^verbatim>\<open>MAX_RETRIES_EXCEEDED\<close>:
  a body with a marker and none of the markers tested before it gets that marker's tag
  (TransactionReplaced on \<^verbatim>\<open>TRANSACTION_REPLACED\<close>, ReplacementUnderpriced on
  \<^verbatim>\<open>REPLACEMENT_UNDERPRICED\<close>, RateLimited on \<^verbatim>\<open>RATE_LIMIT\<close>, TemporarilyForbidden on
  "Temporarily forbidden due to suspicious requests", AccessRestricted on
  \<^verbatim>\<open>ACCESS_RESTRICTED\<close>, Timeout on \<^verbatim>\<open>TIMEOUT\<close>, ConnectionReset on
  \<^verbatim>\<open>CONNECTION_RESET\<close>), a body with none of the markers gets UnknownFailure, and the
  phrase "Max retries exceeded with url" is looked for in the message of a connection
  error, for which the client returns the body \<^verbatim>\<open>MAX_RETRIES_EXCEEDED\<close> itself (unless
  the message also says "Connection reset by peer", and provided the operator does not
  interrupt the request).
\<close>

theorem faucet_failure_markers:
  "(contains ''MAX_RETRIES_EXCEEDED'' body \<longrightarrow> classify body = MaxRetriesExceeded)
   \<and> (contains ''TRANSACTION_REPLACED'' body \<and> \<not> contains ''MAX_RETRIES_EXCEEDED'' body
        \<longrightarrow> classify body = TransactionReplaced)
   \<and> (contains ''REPLACEMENT_UNDERPRICED'' body \<and> \<not> contains ''MAX_RETRIES_EXCEEDED'' body
        \<and> \<not> contains ''TRANSACTION_REPLACED'' body
        \<longrightarrow> classify body = ReplacementUnderpriced)
   \<and> (contains ''RATE_LIMIT'' body \<and> \<not> contains ''MAX_RETRIES_EXCEEDED'' body
        \<and> \<not> contains ''TRANSACTION_REPLACED'' body \<and> \<not> contains ''REPLACEMENT_UNDERPRICED'' body
        \<longrightarrow> classify body = RateLimited)
   \<and> (contains ''Temporarily forbidden due to suspicious requests'' body
        \<and> \<not> contains ''MAX_RETRIES_EXCEEDED'' body \<and> \<not> contains ''TRANSACTION_REPLACED'' body
        \<and> \<not> contains ''REPLACEMENT_UNDERPRICED'' body \<and> \<not> contains ''RATE_LIMIT'' body
        \<longrightarrow> classify body = TemporarilyForbidden)
   \<and> (contains ''ACCESS_RESTRICTED'' body
        \<and> \<not> contains ''MAX_RETRIES_EXCEEDED'' body \<and> \<not> contains ''TRANSACTION_REPLACED'' body
        \<and> \<not> contains ''REPLACEMENT_UNDERPRICED'' body \<and> \<not> contains ''RATE_LIMIT'' body
        \<and> \<not> contains ''Temporarily forbidden due to suspicious requests'' body
        \<longrightarrow> classify body = AccessRestricted)
   \<and> (contains ''TIMEOUT'' body
        \<and> \<not> contains ''MAX_RETRIES_EXCEEDED'' body \<and> \<not> contains ''TRANSACTION_REPLACED'' body
        \<and> \<not> contains ''REPLACEMENT_UNDERPRICED'' body \<and> \<not> contains ''RATE_LIMIT'' body
        \<and> \<not> contains ''Temporarily forbidden due to suspicious requests'' body
        \<and> \<not> contains ''ACCESS_RESTRICTED'' body
        \<longrightarrow> classify body = Timeout)
   \<and> (contains ''CONNECTION_RESET'' body
        \<and> \<not> contains ''MAX_RETRIES_EXCEEDED'' body \<and> \<not> contains ''TRANSACTION_REPLACED'' body
        \<and> \<not> contains ''REPLACEMENT_UNDERPRICED'' body \<and> \<not> contains ''RATE_LIMIT'' body
        \<and> \<not> contains ''Temporarily forbidden due to suspicious requests'' body
        \<and> \<not> contains ''ACCESS_RESTRICTED'' body \<and> \<not> contains ''TIMEOUT'' body
        \<longrightarrow> classify body = ConnectionReset)
   \<and> (\<not> contains ''MAX_RETRIES_EXCEEDED'' body \<and> \<not> contains ''TRANSACTION_REPLACED'' body
        \<and> \<not> contains ''REPLACEMENT_UNDERPRICED'' body \<and> \<not> contains ''RATE_LIMIT'' body
        \<and> \<not> contains ''Temporarily forbidden due to suspicious requests'' body
        \<and> \<not> contains ''ACCESS_RESTRICTED'' body \<and> \<not> contains ''TIMEOUT'' body
        \<and> \<not> contains ''CONNECTION_RESET'' body
        \<longrightarrow> classify body = UnknownFailure)
   \<and> ((\<forall>k. requests_post E k addr = Inl (Exception (ConnectionError msg)))
        \<and> (\<forall>k. tor_newnym E k \<noteq> Inl KeyboardInterrupt) \<and> (\<forall>k. \<not> sleep_interrupted E k)
        \<and> contains ''Max retries exceeded with url'' msg
        \<and> \<not> contains ''Connection reset by peer'' msg
        \<longrightarrow> fst (request_faucet_funds E addr w) = Inr (False, ''MAX_RETRIES_EXCEEDED''))"
proof (intro conjI impI)
  assume "(\<forall>k. requests_post E k addr = Inl (Exception (ConnectionError msg)))
        \<and> (\<forall>k. tor_newnym E k \<noteq> Inl KeyboardInterrupt) \<and> (\<forall>k. \<not> sleep_interrupted E k)
        \<and> contains ''Max retries exceeded with url'' msg
        \<and> \<not> contains ''Connection reset by peer'' msg"
  then show "fst (request_faucet_funds E addr w) = Inr (False, ''MAX_RETRIES_EXCEEDED'')"
    using request_faucet_funds_connection_error [of E addr msg w] by simp
qed (simp_all add: classify_def)

theorem faucet_failure_markers_witness:
  "classify ''{code: RATE_LIMIT}'' = RateLimited
   \<and> classify ''Temporarily forbidden due to suspicious requests'' = TemporarilyForbidden
   \<and> classify ''<html>502</html>'' = UnknownFailure
   \<and> fst (request_faucet_funds refused_env ''0xA'' w0) = Inr (False, ''MAX_RETRIES_EXCEEDED'')
   \<and> classify ''MAX_RETRIES_EXCEEDED'' = MaxRetriesExceeded"
proof -
  have a: "classify ''{code: RATE_LIMIT}'' = RateLimited"
    using faucet_failure_markers [of "''{code: RATE_LIMIT}''"] by simp
  have b: "classify ''Temporarily forbidden due to suspicious requests'' = TemporarilyForbidden"
    using faucet_failure_markers [of "''Temporarily forbidden due to suspicious requests''"] by simp
  have c: "classify ''<html>502</html>'' = UnknownFailure"
    using faucet_failure_markers [of "''<html>502</html>''"] by simp
  have d: "classify ''MAX_RETRIES_EXCEEDED'' = MaxRetriesExceeded"
    using faucet_failure_markers [of "''MAX_RETRIES_EXCEEDED''"] by simp
  have "fst (request_faucet_funds refused_env ''0xA'' w0) = Inr (False, ''MAX_RETRIES_EXCEEDED'')"
    using faucet_failure_markers [of "[]" refused_env "''0xA''"
        "''HTTPSConnectionPool: Max retries exceeded with url: /api''" w0]
    by (simp add: refused_env_def idle_env_def)
  then show ?thesis using a b c d by simp
qed

text \<open>
  C10: a failed request's body selects one branch of \<^verbatim>\<open>run_bot\<close>, the one of the first
  marker it contains in the order MAX_RETRIES_EXCEEDED, TRANSACTION_REPLACED,
  REPLACEMENT_UNDERPRICED, RATE_LIMIT, the temporarily-forbidden phrase, ACCESS_RESTRICTED,
  TIMEOUT, CONNECTION_RESET (and the final \<^verbatim>\<open>else\<close> when it contains none). So a body
  with both RATE_LIMIT and ACCESS_RESTRICTED, and none of the three markers tested before
  RATE_LIMIT, is handled as RateLimited.
\<close>

theorem classify_precedence:
  "classify body = first_marker body
   \<and> (contains ''RATE_LIMIT'' body \<and> contains ''ACCESS_RESTRICTED'' body
        \<and> \<not> contains ''MAX_RETRIES_EXCEEDED'' body \<and> \<not> contains ''TRANSACTION_REPLACED'' body
        \<and> \<not> contains ''REPLACEMENT_UNDERPRICED'' body
        \<longrightarrow> classify body = RateLimited)"
  by (simp add: classify_def first_marker_def precedence_def)

theorem classify_precedence_witness:
  "contains ''RATE_LIMIT'' ''429 RATE_LIMIT; ACCESS_RESTRICTED''
   \<and> contains ''ACCESS_RESTRICTED'' ''429 RATE_LIMIT; ACCESS_RESTRICTED''
   \<and> first_marker ''429 RATE_LIMIT; ACCESS_RESTRICTED'' = RateLimited
   \<and> classify ''429 RATE_LIMIT; ACCESS_RESTRICTED'' = RateLimited"
  using classify_precedence [of "''429 RATE_LIMIT; ACCESS_RESTRICTED''"]
  by (simp add: first_marker_def precedence_def)

subsection \<open>Reading the balance\<close>

text \<open>
  C8: when the RPC read of the balance fails, \<^verbatim>\<open>get_balance\<close> prints the error and
  returns 0; when the read succeeds (and the amount converts), it returns the amount read;
  it never raises an \<^verbatim>\<open>Exception\<close> to its caller. (Only the operator's interrupt,
  which \<^verbatim>\<open>except Exception\<close> does not catch, passes through.)
\<close>

theorem get_balance_never_raises:
  "(eth_get_balance E (calls w) addr = Inl (Exception e) \<longrightarrow>
      get_balance E addr w =
        (Inr 0, emit (Print ''Error getting balance for {address}: {e}'')
                  ((emit (EthGetBalance addr) w)\<lparr>calls := Suc (calls w)\<rparr>)))
   \<and> (eth_get_balance E (calls w) addr = Inr balance_wei \<and> from_wei E balance_wei = Inr balance_eth \<longrightarrow>
      get_balance E addr w =
        (Inr balance_eth, (emit (EthGetBalance addr) w)\<lparr>calls := Suc (calls w)\<rparr>))
   \<and> (\<forall>x. fst (get_balance E addr w) \<noteq> Inl (Exception x))"
  by (auto simp: get_balance_def try_except_def bind_io_def seq_io_def extern_def pure_call_def
        ret_def print_def split: sum.splits raised.splits prod.splits)

theorem get_balance_never_raises_witness:
  "eth_get_balance rpc_down_env (calls w0) ''0xA'' = Inl (Exception (OtherException ''503 Service Unavailable''))
   \<and> get_balance rpc_down_env ''0xA'' w0 =
       (Inr 0, \<lparr>calls = 1, trace = [EthGetBalance ''0xA'', Print ''Error getting balance for {address}: {e}'']\<rparr>)
   \<and> eth_get_balance funded_env (calls w0) ''0xA'' = Inr 1000000000000000000
   \<and> from_wei funded_env 1000000000000000000 = Inr 1
   \<and> get_balance funded_env ''0xA'' w0 = (Inr 1, \<lparr>calls = 1, trace = [EthGetBalance ''0xA'']\<rparr>)"
  using get_balance_never_raises [of rpc_down_env w0 "''0xA''" "OtherException ''503 Service Unavailable''"]
    get_balance_never_raises [of funded_env w0 "''0xA''" _ 1000000000000000000 1]
  by (simp add: rpc_down_env_def funded_env_def idle_env_def w0_def emit_def lib_from_wei_def)

subsection \<open>The sweep\<close>

text \<open>
  C9: two calls of \<^verbatim>\<open>transfer_funds\<close> that differ only in \<^verbatim>\<open>amount_eth\<close> behave alike:
  the argument is not used, neither by the method as it is written nor by the block of
  lines 159-203.
\<close>

theorem transfer_funds_ignores_amount:
  "transfer_funds E from_private_key from_address to_address amount1 =
     transfer_funds E from_private_key from_address to_address amount2
   \<and> transfer_funds_block E from_private_key from_address to_address amount1 =
     transfer_funds_block E from_private_key from_address to_address amount2"
  by (simp add: transfer_funds_def transfer_funds_block_def)

subsection \<open>The bounded poll\<close>

lemma get_balance_step:
  "\<exists>w1. get_balance E a w = (balance_read E a (calls w), w1) \<and> calls w1 = Suc (calls w)
     \<and> calls_made w1 = calls_made w @ [EthGetBalance a]
     \<and> sweep_attempts w1 = sweep_attempts w"
  by (auto simp: get_balance_def balance_read_def io_defs calls_made_def sweep_attempts_def
        attempt_line_def split: sum.splits raised.splits)

lemma quiet_reads_Suc:
  "quiet_reads E a i c (Suc N) \<longleftrightarrow>
     (\<exists>b. balance_read E a c = Inr b \<and> b \<le> i) \<and> \<not> sleep_interrupted E (Suc c)
     \<and> quiet_reads E a i (c + 2) N"
proof -
  have "(\<forall>k<Suc N. P k) \<longleftrightarrow> P 0 \<and> (\<forall>k<N. P (Suc k))" for P
    by (metis less_Suc_eq_0_disj)
  then show ?thesis
    by (simp add: quiet_reads_def)
qed

lemma check_loop_quiet:
  "quiet_reads E a i (calls w) N \<Longrightarrow>
   \<exists>w' c'. check_loop E a i N c w = (Inr (False, c'), w') \<and> calls w' = calls w + 2 * N
     \<and> calls_made w' = calls_made w @ concat (replicate N [EthGetBalance a, Sleep 1])
     \<and> sweep_attempts w' = sweep_attempts w"
proof (induction N arbitrary: w c)
  case 0
  then show ?case by (simp add: ret_def)
next
  case (Suc N)
  from Suc.prems obtain b where b: "balance_read E a (calls w) = Inr b" "b \<le> i"
    and sl: "\<not> sleep_interrupted E (Suc (calls w))"
    and rest: "quiet_reads E a i (calls w + 2) N"
    by (auto simp: quiet_reads_Suc)
  obtain w1 where w1: "get_balance E a w = (Inr b, w1)" "calls w1 = Suc (calls w)"
    "calls_made w1 = calls_made w @ [EthGetBalance a]" "sweep_attempts w1 = sweep_attempts w"
    using get_balance_step [of E a w] b by auto
  define w2 where "w2 = emit (Print ''Checking balance (Attempt {i+1}/{check_attempts})... Current balance: {current_balance} ETH'') w1"
  define w3 where "w3 = (emit (Sleep 1) w2)\<lparr>calls := Suc (calls w2)\<rparr>"
  have w3: "calls w3 = calls w + 2" "calls_made w3 = calls_made w @ [EthGetBalance a, Sleep 1]"
    "sweep_attempts w3 = sweep_attempts w"
    using w1 by (simp_all add: w3_def w2_def emit_def calls_made_def sweep_attempts_def attempt_line_def)
  have step: "check_loop E a i (Suc N) c w = check_loop E a i N b w3"
    using w1(1) b(2) sl w1(2)
    by (simp add: bind_io_def seq_io_def print_def sleep_def extern_def w3_def w2_def emit_def)
  from Suc.IH [of w3 b] rest w3 show ?case
    unfolding step by auto
qed

lemma check_loop_found:
  "k < N \<Longrightarrow> quiet_reads E a i (calls w) k \<Longrightarrow> balance_read E a (calls w + 2 * k) = Inr b \<Longrightarrow> i < b \<Longrightarrow>
   \<exists>w'. check_loop E a i N c w = (Inr (True, b), w') \<and> calls w' = calls w + 2 * k + 1
     \<and> calls_made w' = calls_made w @ concat (replicate k [EthGetBalance a, Sleep 1]) @ [EthGetBalance a]
     \<and> sweep_attempts w' = sweep_attempts w"
proof (induction k arbitrary: N w c)
  case 0
  then obtain M where N: "N = Suc M" by (cases N) auto
  obtain w1 where w1: "get_balance E a w = (Inr b, w1)" "calls w1 = Suc (calls w)"
    "calls_made w1 = calls_made w @ [EthGetBalance a]" "sweep_attempts w1 = sweep_attempts w"
    using get_balance_step [of E a w] 0 by auto
  show ?case
    using w1 0(4)
    by (simp add: N bind_io_def seq_io_def print_def ret_def emit_def calls_made_def
          sweep_attempts_def attempt_line_def)
next
  case (Suc k)
  then obtain M where N: "N = Suc M" and kM: "k < M" by (cases N) auto
  from Suc.prems(2) obtain b0 where b0: "balance_read E a (calls w) = Inr b0" "b0 \<le> i"
    and sl: "\<not> sleep_interrupted E (Suc (calls w))"
    and rest: "quiet_reads E a i (calls w + 2) k"
    by (auto simp: quiet_reads_Suc)
  obtain w1 where w1: "get_balance E a w = (Inr b0, w1)" "calls w1 = Suc (calls w)"
    "calls_made w1 = calls_made w @ [EthGetBalance a]" "sweep_attempts w1 = sweep_attempts w"
    using get_balance_step [of E a w] b0 by auto
  define w2 where "w2 = emit (Print ''Checking balance (Attempt {i+1}/{check_attempts})... Current balance: {current_balance} ETH'') w1"
  define w3 where "w3 = (emit (Sleep 1) w2)\<lparr>calls := Suc (calls w2)\<rparr>"
  have w3: "calls w3 = calls w + 2" "calls_made w3 = calls_made w @ [EthGetBalance a, Sleep 1]"
    "sweep_attempts w3 = sweep_attempts w"
    using w1 by (simp_all add: w3_def w2_def emit_def calls_made_def sweep_attempts_def attempt_line_def)
  have step: "check_loop E a i N c w = check_loop E a i M b0 w3"
    using w1(1) b0(2) sl w1(2)
    by (simp add: N bind_io_def seq_io_def print_def sleep_def extern_def w3_def w2_def emit_def)
  have "balance_read E a (calls w3 + 2 * k) = Inr b"
    using Suc.prems(3) w3(1) by simp
  from Suc.IH [OF kM _ this Suc.prems(4), of b0] rest w3 show ?case
    unfolding step by auto
qed


text \<open>
  C5: the bounded poll with limit \<open>N\<close>. If none of its \<open>N\<close> balance reads exceeds the
  baseline (and the operator does not interrupt), \<^verbatim>\<open>check_balance_and_transfer\<close> returns
  \<^verbatim>\<open>False\<close>, whatever the bound on the retry loop, after exactly \<open>N\<close> reads, each
  followed by a sleep of 1, and without announcing a sweep attempt. If the read number
  \<open>k + 1\<close> is the first to exceed the baseline, the \<^verbatim>\<open>for\<close> loop stops at that read
  and the method goes on with the transfer retry loop on the balance just read.
\<close>

theorem bounded_count_poll:
  "(quiet_reads E a init (calls w) N \<longrightarrow>
      (\<exists>w'. check_balance_and_transfer n E tf pk a r init N w = Some (Inr False, w')
          \<and> calls_made w' = calls_made w @ concat (replicate N [EthGetBalance a, Sleep 1])
          \<and> sweep_attempts w' = sweep_attempts w))
   \<and> (k < N \<and> quiet_reads E a init (calls w) k
        \<and> balance_read E a (calls w + 2 * k) = Inr b \<and> init < b \<longrightarrow>
      (\<exists>w'. check_loop E a init N 0 w = (Inr (True, b), w')
          \<and> calls_made w' = calls_made w @ concat (replicate k [EthGetBalance a, Sleep 1]) @ [EthGetBalance a]
          \<and> sweep_attempts w' = sweep_attempts w
          \<and> check_balance_and_transfer n E tf pk a r init N w = transfer_retry n E tf pk a r init b w'))"
proof (intro conjI impI)
  assume "quiet_reads E a init (calls w) N"
  from check_loop_quiet [OF this, of 0]
  show "\<exists>w'. check_balance_and_transfer n E tf pk a r init N w = Some (Inr False, w')
          \<and> calls_made w' = calls_made w @ concat (replicate N [EthGetBalance a, Sleep 1])
          \<and> sweep_attempts w' = sweep_attempts w"
    by (auto simp: check_balance_and_transfer_def bind_f_def lift_def ret_def)
next
  assume "k < N \<and> quiet_reads E a init (calls w) k
        \<and> balance_read E a (calls w + 2 * k) = Inr b \<and> init < b"
  then obtain w' where "check_loop E a init N 0 w = (Inr (True, b), w')"
    "calls_made w' = calls_made w @ concat (replicate k [EthGetBalance a, Sleep 1]) @ [EthGetBalance a]"
    "sweep_attempts w' = sweep_attempts w"
    using check_loop_found [of k N E a init w b 0] by auto
  then show "\<exists>w'. check_loop E a init N 0 w = (Inr (True, b), w')
          \<and> calls_made w' = calls_made w @ concat (replicate k [EthGetBalance a, Sleep 1]) @ [EthGetBalance a]
          \<and> sweep_attempts w' = sweep_attempts w
          \<and> check_balance_and_transfer n E tf pk a r init N w = transfer_retry n E tf pk a r init b w'"
    by (auto simp: check_balance_and_transfer_def bind_f_def lift_def)
qed

lemma balance_read_idle: "balance_read idle_env a k = Inr 0"
  by (simp add: balance_read_def get_balance_def io_defs idle_env_def lib_from_wei_def)

lemma balance_read_arriving:
  "balance_read arriving_env a k = (if k < 4 then Inr 0 else Inr (3 / 2))"
  by (simp add: balance_read_def get_balance_def io_defs arriving_env_def idle_env_def lib_from_wei_def)

lemma sleep_idle: "\<not> sleep_interrupted idle_env k" "\<not> sleep_interrupted arriving_env k"
  by (simp_all add: idle_env_def arriving_env_def)

theorem bounded_count_poll_witness:
  "quiet_reads idle_env ''0x11'' 0 (calls w0) 10
   \<and> map_option fst (check_balance_and_transfer 0 idle_env (transfer_funds idle_env) ''11'' ''0x11'' ''0xR'' 0 10 w0)
       = Some (Inr False)
   \<and> map_option (calls_made \<circ> snd)
        (check_balance_and_transfer 0 idle_env (transfer_funds idle_env) ''11'' ''0x11'' ''0xR'' 0 10 w0)
       = Some (concat (replicate 10 [EthGetBalance ''0x11'', Sleep 1]))
   \<and> (2::nat) < 10 \<and> quiet_reads arriving_env ''0x11'' 0 (calls w0) 2
   \<and> balance_read arriving_env ''0x11'' (calls w0 + 2 * 2) = Inr (3 / 2)
   \<and> fst (check_loop arriving_env ''0x11'' 0 10 0 w0) = Inr (True, 3 / 2)
   \<and> calls_made (snd (check_loop arriving_env ''0x11'' 0 10 0 w0))
       = [EthGetBalance ''0x11'', Sleep 1, EthGetBalance ''0x11'', Sleep 1, EthGetBalance ''0x11'']"
proof -
  have q1: "quiet_reads idle_env ''0x11'' 0 (calls w0) 10"
    by (simp add: quiet_reads_def balance_read_idle sleep_idle)
  have q2: "quiet_reads arriving_env ''0x11'' 0 (calls w0) 2"
    by (auto simp: quiet_reads_def balance_read_arriving w0_def sleep_idle)
  have b2: "balance_read arriving_env ''0x11'' (calls w0 + 2 * 2) = Inr (3 / 2)"
    by (simp add: balance_read_arriving w0_def)
  have cm: "calls_made w0 = []"
    by (simp add: calls_made_def w0_def)
  obtain w' where "check_balance_and_transfer 0 idle_env (transfer_funds idle_env) ''11'' ''0x11'' ''0xR'' 0 10 w0
        = Some (Inr False, w')"
      "calls_made w' = calls_made w0 @ concat (replicate 10 [EthGetBalance ''0x11'', Sleep 1])"
    using bounded_count_poll [of idle_env "''0x11''" 0 w0 10 0 "transfer_funds idle_env" "''11''" "''0xR''" 0 0,
        THEN conjunct1, rule_format, OF q1]
    by blast
  then have p1: "map_option fst (check_balance_and_transfer 0 idle_env (transfer_funds idle_env) ''11'' ''0x11'' ''0xR'' 0 10 w0)
       = Some (Inr False)
   \<and> map_option (calls_made \<circ> snd)
        (check_balance_and_transfer 0 idle_env (transfer_funds idle_env) ''11'' ''0x11'' ''0xR'' 0 10 w0)
       = Some (concat (replicate 10 [EthGetBalance ''0x11'', Sleep 1]))"
    by (simp add: cm)
  have "2 < (10::nat) \<and> quiet_reads arriving_env ''0x11'' 0 (calls w0) 2
        \<and> balance_read arriving_env ''0x11'' (calls w0 + 2 * 2) = Inr (3 / 2) \<and> (0::rat) < 3 / 2"
    using q2 b2 by simp
  then obtain w'' where "check_loop arriving_env ''0x11'' 0 10 0 w0 = (Inr (True, 3 / 2), w'')"
      "calls_made w'' = calls_made w0 @ concat (replicate 2 [EthGetBalance ''0x11'', Sleep 1]) @ [EthGetBalance ''0x11'']"
    using bounded_count_poll [of arriving_env "''0x11''" 0 w0 10 0 "transfer_funds idle_env" "''11''" "''0xR''" 2 "3 / 2",
        THEN conjunct2, rule_format]
    by blast
  then have p2: "fst (check_loop arriving_env ''0x11'' 0 10 0 w0) = Inr (True, 3 / 2)
   \<and> calls_made (snd (check_loop arriving_env ''0x11'' 0 10 0 w0))
       = [EthGetBalance ''0x11'', Sleep 1, EthGetBalance ''0x11'', Sleep 1, EthGetBalance ''0x11'']"
    by (simp add: cm numeral_2_eq_2)
  show ?thesis using q1 q2 b2 p1 p2 by simp
qed

subsection \<open>The transfer retry loop\<close>

lemmas f_defs = bind_f_def seq_f_def lift_def

lemma transfer_retry_false:
  "transfer_retry n E tf pk a r init cur w = Some (Inr False, w') \<Longrightarrow>
   \<exists>u b u'. get_balance E a u = (Inr b, u') \<and> b \<le> init
     \<and> w' = emit (Print ''Funds no longer available - stopping retries'') u'"
proof (induction n arbitrary: w)
  case 0
  then show ?case by simp
next
  case (Suc n)
  let ?w0 = "emit (Print attempt_line) w"
  obtain res w1 where tf: "tf pk a r cur ?w0 = (res, w1)" by (cases "tf pk a r cur ?w0")
  show ?case
  proof (cases res)
    case (Inl e)
    with Suc.prems tf show ?thesis
      by (simp add: f_defs print_def attempt_line_def)
  next
    case (Inr sent)
    show ?thesis
    proof (cases "truthy sent")
      case True
      with Suc.prems tf Inr show ?thesis
        by (simp add: f_defs print_def ret_def attempt_line_def)
    next
      case False
      let ?w2 = "emit (Print ''Transfer failed - retrying in {self.request_delay} seconds...'') w1"
      obtain sres w3 where sl: "sleep E request_delay ?w2 = (sres, w3)"
        by (cases "sleep E request_delay ?w2")
      obtain bres w4 where gb: "get_balance E a w3 = (bres, w4)"
        by (cases "get_balance E a w3")
      from Suc.prems tf Inr False sl gb show ?thesis
        apply (simp add: f_defs print_def ret_def attempt_line_def split: sum.splits if_splits)
        apply (cases sres; cases bres; simp split: if_splits)
         apply blast
        apply (erule Suc.IH)
        done
    qed
  qed
qed


text \<open>
  C6: in the retry loop that both pollers run as their transfer phase, a sweep attempt
  that fails (and a sleep that is not interrupted) is followed by a fresh balance read,
  which is compared with the baseline: if it is at most the baseline the loop returns
  \<^verbatim>\<open>False\<close> at once, with no further attempt, whatever rounds it had left; otherwise the
  next round starts. Whenever the loop returns \<^verbatim>\<open>False\<close>, the last thing it did was
  such a read, followed by the line that says so. The bounded poll enters this loop after
  its \<^verbatim>\<open>for\<close> loop found funds, the timed poll enters it at the first read above the
  baseline.
\<close>

theorem retry_stops_when_funds_gone:
  "(tf pk a r cur (emit (Print attempt_line) w) = (Inr sent, w1) \<and> \<not> truthy sent
      \<and> \<not> sleep_interrupted E (calls w1)
      \<and> get_balance E a
           ((emit (Sleep request_delay)
               (emit (Print ''Transfer failed - retrying in {self.request_delay} seconds...'') w1))
             \<lparr>calls := Suc (calls w1)\<rparr>) = (Inr b, w2)
      \<longrightarrow> transfer_retry (Suc n) E tf pk a r init cur w =
            (if b \<le> init
             then Some (Inr False, emit (Print ''Funds no longer available - stopping retries'') w2)
             else transfer_retry n E tf pk a r init cur w2))
   \<and> (transfer_retry n E tf pk a r init cur w = Some (Inr False, w')
      \<longrightarrow> (\<exists>u b' u'. get_balance E a u = (Inr b', u') \<and> b' \<le> init
             \<and> w' = emit (Print ''Funds no longer available - stopping retries'') u'))
   \<and> (check_loop E a init N 0 w = (Inr (True, cur), wc)
      \<longrightarrow> check_balance_and_transfer n E tf pk a r init N w = transfer_retry n E tf pk a r init cur wc)
   \<and> (now E w = (Inr t, wa) \<and> t - start < timeout
        \<and> get_balance E a wa = (Inr cur, wb) \<and> init < cur
      \<longrightarrow> wait_loop (Suc n) E tf pk a r init timeout start w =
            transfer_retry n E tf pk a r init cur
              (emit (Print ''Funds received! Balance: {current_balance} ETH'') wb))"
proof (intro conjI impI)
  assume "tf pk a r cur (emit (Print attempt_line) w) = (Inr sent, w1) \<and> \<not> truthy sent
      \<and> \<not> sleep_interrupted E (calls w1)
      \<and> get_balance E a
           ((emit (Sleep request_delay)
               (emit (Print ''Transfer failed - retrying in {self.request_delay} seconds...'') w1))
             \<lparr>calls := Suc (calls w1)\<rparr>) = (Inr b, w2)"
  then show "transfer_retry (Suc n) E tf pk a r init cur w =
            (if b \<le> init
             then Some (Inr False, emit (Print ''Funds no longer available - stopping retries'') w2)
             else transfer_retry n E tf pk a r init cur w2)"
    by (simp add: f_defs print_def ret_def attempt_line_def sleep_def extern_def emit_def)
next
  assume "transfer_retry n E tf pk a r init cur w = Some (Inr False, w')"
  then show "\<exists>u b' u'. get_balance E a u = (Inr b', u') \<and> b' \<le> init
             \<and> w' = emit (Print ''Funds no longer available - stopping retries'') u'"
    by (rule transfer_retry_false)
next
  assume "check_loop E a init N 0 w = (Inr (True, cur), wc)"
  then show "check_balance_and_transfer n E tf pk a r init N w = transfer_retry n E tf pk a r init cur wc"
    by (simp add: check_balance_and_transfer_def f_defs)
next
  assume "now E w = (Inr t, wa) \<and> t - start < timeout
        \<and> get_balance E a wa = (Inr cur, wb) \<and> init < cur"
  then show "wait_loop (Suc n) E tf pk a r init timeout start w =
            transfer_retry n E tf pk a r init cur
              (emit (Print ''Funds received! Balance: {current_balance} ETH'') wb)"
    by (simp add: f_defs print_def)
qed

theorem retry_stops_when_funds_gone_witness:
  "transfer_funds idle_env ''11'' ''0x11'' ''0xR'' (3 / 2) (emit (Print attempt_line) w0)
      = (Inr None, emit (Print attempt_line) w0)
   \<and> \<not> truthy None
   \<and> \<not> sleep_interrupted idle_env (calls (emit (Print attempt_line) w0))
   \<and> transfer_retry (Suc 0) idle_env (transfer_funds idle_env) ''11'' ''0x11'' ''0xR'' 0 (3 / 2) w0 =
       Some (Inr False,
         \<lparr>calls = 2,
          trace = [Print attempt_line,
                   Print ''Transfer failed - retrying in {self.request_delay} seconds...'',
                   Sleep 1, EthGetBalance ''0x11'',
                   Print ''Funds no longer available - stopping retries'']\<rparr>)"
proof -
  let ?w1 = "emit (Print attempt_line) w0"
  let ?w2 = "\<lparr>calls = 2,
          trace = [Print attempt_line,
                   Print ''Transfer failed - retrying in {self.request_delay} seconds...'',
                   Sleep 1, EthGetBalance ''0x11'']\<rparr>"
  have a: "transfer_funds idle_env ''11'' ''0x11'' ''0xR'' (3 / 2) ?w1 = (Inr None, ?w1)"
    by (simp add: transfer_funds_def ret_def)
  have b: "\<not> truthy None" by (simp add: truthy_def)
  have c: "\<not> sleep_interrupted idle_env (calls ?w1)" by (simp add: idle_env_def)
  have d: "get_balance idle_env ''0x11''
           ((emit (Sleep request_delay)
               (emit (Print ''Transfer failed - retrying in {self.request_delay} seconds...'') ?w1))
             \<lparr>calls := Suc (calls ?w1)\<rparr>) = (Inr 0, ?w2)"
    by (simp add: get_balance_def io_defs idle_env_def lib_from_wei_def w0_def request_delay_def)
  from retry_stops_when_funds_gone [of "transfer_funds idle_env" "''11''" "''0x11''" "''0xR''" "3 / 2" w0
      None ?w1 idle_env 0 ?w2 0 0, THEN conjunct1, rule_format] a b c d
  show ?thesis by (simp add: emit_def)
qed

subsection \<open>The branch of RATE_LIMIT\<close>

lemmas b_defs = bind_b_def seq_b_def lift_b_def do_io_def read_var_def assign_def

lemma next_cycle_eq:
  "next_cycle E tag L w =
     Some (if sleep_interrupted E (calls w) then Inl KeyboardInterrupt else Inr tag,
           L\<lparr>v_cycle := v_cycle L + 1\<rparr>,
           (emit (Sleep request_delay) w)\<lparr>calls := Suc (calls w)\<rparr>)"
  by (simp add: next_cycle_def b_defs f_defs sleep_def extern_def)

text \<open>
  C4, amended: on RATE_LIMIT the bounded poll runs once. If that pass returns
  \<^verbatim>\<open>False\<close> (no funds seen, or the retries stopped), no second pass runs. Only if the
  first pass returns \<^verbatim>\<open>True\<close> (funds seen and swept) is the balance read again as the
  new baseline, and the bounded poll run a second time against it. In both cases, once the
  passes have returned, the cycle counter is advanced and the loop is left with the reuse
  flag as it was.
\<close>

theorem rate_limit_second_pass:
  "(check_balance_and_transfer n E tf pk a r init 10
       (emit (Print ''RATE_LIMIT detected - checking balance for 10 times...'') w) = Some (Inr False, w1)
      \<longrightarrow> rate_limit_branch n E tf r pk a init L w =
            next_cycle E RateLimited L
              (emit (Print ''No funds received after 10 checks - moving to next cycle with new address'') w1))
   \<and> (check_balance_and_transfer n E tf pk a r init 10
       (emit (Print ''RATE_LIMIT detected - checking balance for 10 times...'') w) = Some (Inr True, w1)
      \<and> get_balance E a (emit (Print ''Rechecking balance for second time after transfer...'') w1)
           = (Inr init2, w2)
      \<and> check_balance_and_transfer n E tf pk a r init2 10 w2 = Some (Inr second, w3)
      \<longrightarrow> rate_limit_branch n E tf r pk a init L w =
            next_cycle E RateLimited L
              (emit (Print (if second then ''Second transfer successful!''
                            else ''No additional funds received on second check'')) w3))
   \<and> (rate_limit_branch n E tf r pk a init L w = Some (Inr tag, L', w')
      \<longrightarrow> tag = RateLimited \<and> L' = L\<lparr>v_cycle := v_cycle L + 1\<rparr>)"
  by (auto simp: rate_limit_branch_def b_defs f_defs print_def next_cycle_eq
        split: option.splits sum.splits prod.splits if_splits)


lemma request_rate_limited:
  "request_faucet_funds rate_limited_env ''0x11'' w0 =
     (Inr (False, ''{code: RATE_LIMIT}''),
      \<lparr>calls = 3,
       trace = [Print ''Preparing new IP for faucet request to {address}...'', TorNewnym,
                Print ''Changed to new Tor identity (unique IP) on attempt {attempt + 1}'', Sleep 3,
                Print ''Requesting funds for {address} with new IP...'', HttpPost ''0x11'',
                Print ''  Response: {response.status_code}'',
                Print ''Faucet request failed: {response.status_code}'',
                Print ''  Raw response: {response.content}'']\<rparr>)"
  by (simp add: request_faucet_funds_def change_tor_identity_def io_defs rate_limited_env_def
        idle_env_def w0_def numeral_3_eq_3)

lemma get_balance_rate_limited:
  "get_balance rate_limited_env a w = (Inr 0, (emit (EthGetBalance a) w)\<lparr>calls := Suc (calls w)\<rparr>)"
  by (simp add: get_balance_def io_defs rate_limited_env_def idle_env_def lib_from_wei_def)

lemma sleep_rate_limited:
  "sleep rate_limited_env d w = (Inr (), (emit (Sleep d) w)\<lparr>calls := Suc (calls w)\<rparr>)"
  by (simp add: sleep_def extern_def rate_limited_env_def idle_env_def)

text \<open>
  C4, as the claim states it, fails. The faucet answers 429 with RATE_LIMIT and the balance
  stays at 0: the branch ends after 10 balance reads, those of the first pass; a second
  pass would have made them 20.
\<close>

theorem rate_limit_single_pass_counterexample:
  "reads_after ''0x11''
     (faucet_loop 1 rate_limited_env (transfer_funds_block rate_limited_env) ''0xR'' ''11'' ''0x11'' 0 L0 w0)
   = Some (Inr RateLimited, 10)"
  by (simp add: reads_after_def balance_reads_def request_rate_limited classify_def
        rate_limit_branch_def check_balance_and_transfer_def next_cycle_def
        get_balance_rate_limited sleep_rate_limited
        b_defs f_defs bind_io_def seq_io_def ret_def print_def emit_def
        eval_nat_numeral request_delay_def)


lemma get_balance_funded:
  "get_balance funded_env a w = (Inr 1, (emit (EthGetBalance a) w)\<lparr>calls := Suc (calls w)\<rparr>)"
  by (simp add: get_balance_def io_defs funded_env_def idle_env_def lib_from_wei_def)

lemma sleep_funded:
  "sleep funded_env d w = (Inr (), (emit (Sleep d) w)\<lparr>calls := Suc (calls w)\<rparr>)"
  by (simp add: sleep_def extern_def funded_env_def idle_env_def)

lemmas eval_defs = check_balance_and_transfer_def f_defs bind_io_def seq_io_def ret_def print_def
  emit_def eval_nat_numeral truthy_def

theorem rate_limit_second_pass_witness:
  "map_option fst
     (check_balance_and_transfer 1 funded_env instant_sweep ''11'' ''0x11'' ''0xR'' 0 10
        (emit (Print ''RATE_LIMIT detected - checking balance for 10 times...'') w0))
     = Some (Inr True)
   \<and> reads_after ''0x11''
        (rate_limit_branch 1 funded_env instant_sweep ''0xR'' ''11'' ''0x11'' 0 L0 w0)
     = Some (Inr RateLimited, 12)
   \<and> reads_after ''0x11''
        (rate_limit_branch 1 rate_limited_env instant_sweep ''0xR'' ''11'' ''0x11'' 0 L0 w0)
     = Some (Inr RateLimited, 10)"
proof -
  let ?r1 = "check_balance_and_transfer 1 funded_env instant_sweep ''11'' ''0x11'' ''0xR'' 0 10
        (emit (Print ''RATE_LIMIT detected - checking balance for 10 times...'') w0)"
  let ?w1 = "snd (the ?r1)"
  let ?g = "get_balance funded_env ''0x11''
              (emit (Print ''Rechecking balance for second time after transfer...'') ?w1)"
  let ?w2 = "snd ?g"
  let ?r2 = "check_balance_and_transfer 1 funded_env instant_sweep ''11'' ''0x11'' ''0xR'' 1 10 ?w2"
  let ?w3 = "snd (the ?r2)"
  have r1: "?r1 = Some (Inr True, ?w1)"
    by (simp add: eval_defs get_balance_funded instant_sweep_def w0_def)
  have g: "?g = (Inr 1, ?w2)"
    by (simp add: get_balance_funded)
  have r2: "?r2 = Some (Inr False, ?w3)"
    by (simp add: eval_defs get_balance_funded sleep_funded)
  have reads: "balance_reads ''0x11'' ?w3 = 12"
    by (simp add: balance_reads_def eval_defs get_balance_funded sleep_funded instant_sweep_def w0_def)
  from rate_limit_second_pass [of 1 funded_env instant_sweep "''11''" "''0x11''" "''0xR''" 0 w0 ?w1 L0
      1 ?w2 False ?w3, THEN conjunct2, THEN conjunct1, rule_format] r1 g r2
  have "rate_limit_branch 1 funded_env instant_sweep ''0xR'' ''11'' ''0x11'' 0 L0 w0 =
          next_cycle funded_env RateLimited L0
            (emit (Print ''No additional funds received on second check'') ?w3)"
    by simp
  then have A: "reads_after ''0x11''
        (rate_limit_branch 1 funded_env instant_sweep ''0xR'' ''11'' ''0x11'' 0 L0 w0)
     = Some (Inr RateLimited, 12)"
    using reads
    by (simp add: reads_after_def next_cycle_eq balance_reads_def emit_def funded_env_def idle_env_def)
  let ?q1 = "check_balance_and_transfer 1 rate_limited_env instant_sweep ''11'' ''0x11'' ''0xR'' 0 10
        (emit (Print ''RATE_LIMIT detected - checking balance for 10 times...'') w0)"
  let ?u1 = "snd (the ?q1)"
  have q1: "?q1 = Some (Inr False, ?u1)"
    by (simp add: eval_defs get_balance_rate_limited sleep_rate_limited)
  have reads': "balance_reads ''0x11'' ?u1 = 10"
    by (simp add: balance_reads_def eval_defs get_balance_rate_limited sleep_rate_limited w0_def)
  from rate_limit_second_pass [of 1 rate_limited_env instant_sweep "''11''" "''0x11''" "''0xR''" 0 w0 ?u1 L0,
      THEN conjunct1, rule_format] q1
  have "rate_limit_branch 1 rate_limited_env instant_sweep ''0xR'' ''11'' ''0x11'' 0 L0 w0 =
          next_cycle rate_limited_env RateLimited L0
            (emit (Print ''No funds received after 10 checks - moving to next cycle with new address'') ?u1)"
    by simp
  then have B: "reads_after ''0x11''
        (rate_limit_branch 1 rate_limited_env instant_sweep ''0xR'' ''11'' ''0x11'' 0 L0 w0)
     = Some (Inr RateLimited, 10)"
    using reads'
    by (simp add: reads_after_def next_cycle_eq balance_reads_def emit_def rate_limited_env_def idle_env_def)
  have C: "map_option fst ?r1 = Some (Inr True)"
    by (subst r1) simp
  from C A B show ?thesis by (intro conjI)
qed

subsection \<open>Reuse and renewal of the account\<close>

lemma reuse_next_cycle_eq:
  "reuse_next_cycle E tag L w =
     Some (if sleep_interrupted E (calls w) then Inl KeyboardInterrupt else Inr tag,
           L\<lparr>v_reuse := True, v_cycle := v_cycle L + 1\<rparr>,
           (emit (Sleep request_delay) w)\<lparr>calls := Suc (calls w)\<rparr>)"
  by (simp add: reuse_next_cycle_def next_cycle_eq b_defs)

lemma rate_limit_branch_locals:
  "rate_limit_branch n E tf r pk a init L w = Some (res, L', w') \<Longrightarrow>
   v_temp_address L' = v_temp_address L \<and> v_temp_private_key L' = v_temp_private_key L
   \<and> v_reuse L' = v_reuse L \<and> (\<forall>tag. res = Inr tag \<longrightarrow> tag = RateLimited)"
  by (auto simp: rate_limit_branch_def b_defs f_defs print_def next_cycle_eq
        split: option.splits sum.splits prod.splits if_splits)

lemma faucet_loop_locals:
  "faucet_loop n E tf r pk a init L w = Some (res, L', w') \<Longrightarrow>
   v_temp_address L' = v_temp_address L \<and> v_temp_private_key L' = v_temp_private_key L
   \<and> (\<forall>tag. res = Inr tag \<longrightarrow>
         (tag \<in> reuse_tags \<and> v_reuse L') \<or> (tag \<in> fresh_tags \<and> v_reuse L' = v_reuse L))"
proof (induction n arbitrary: L w)
  case 0
  then show ?case by simp
next
  case (Suc n)
  obtain rq w1 where rq: "request_faucet_funds E a w = (rq, w1)"
    by (cases "request_faucet_funds E a w")
  show ?case
  proof (cases rq)
    case (Inl e)
    with Suc.prems rq show ?thesis by (auto simp: b_defs f_defs)
  next
    case (Inr sc)
    obtain success content where sc: "sc = (success, content)" by (cases sc)
    show ?thesis
    proof (cases success)
      case True
      with Suc.prems rq Inr sc show ?thesis
        apply (simp add: b_defs f_defs print_def next_cycle_eq sleep_def extern_def
            split: option.splits sum.splits prod.splits if_splits)
        apply (auto simp: fresh_tags_def dest!: Suc.IH)
        done
    next
      case False
      with Suc.prems rq Inr sc show ?thesis
        apply (cases "classify content")
        apply (simp_all add: b_defs f_defs print_def next_cycle_eq reuse_next_cycle_eq sleep_def extern_def
            split: option.splits sum.splits prod.splits if_splits)
        apply (auto simp: fresh_tags_def reuse_tags_def dest!: Suc.IH rate_limit_branch_locals)
        done
    qed
  qed
qed


lemma choose_account_eq:
  "choose_account E L w =
     (if v_reuse L
      then Some (Inr (), L\<lparr>v_reuse := False\<rparr>,
                 emit (Print ''Reusing address from previous cycle: {temp_address}'') w)
      else (case generate_random_account E w of
              (Inl e, u) \<Rightarrow> Some (Inl e, L, u)
            | (Inr (k, a), u) \<Rightarrow>
                Some (Inr (), L\<lparr>v_temp_address := Some a, v_temp_private_key := Some k\<rparr>, u)))"
  by (auto simp: choose_account_def b_defs f_defs print_def split: prod.splits sum.splits)

lemma cycle_body_result:
  assumes "cycle_body n E tf r L w = Some (res, L', w')"
    and "choose_account E L (emit (Print ''Cycle #{cycle}'') w) = Some (rc, Lc, wc)"
  shows "v_temp_address L' = v_temp_address Lc \<and> v_temp_private_key L' = v_temp_private_key Lc
     \<and> (\<forall>e. rc = Inl e \<longrightarrow> res = Inl e \<and> L' = Lc \<and> w' = wc)
     \<and> (\<forall>tag. res = Inr tag \<longrightarrow>
           (tag \<in> reuse_tags \<or> tag \<in> fresh_tags) \<and> v_reuse L' = (tag \<in> reuse_tags)
           \<and> (\<exists>a k. v_temp_address L' = Some a \<and> v_temp_private_key L' = Some k))"
proof (cases rc)
  case (Inl e)
  with assms show ?thesis
    by (auto simp: cycle_body_def bind_b_def seq_b_def do_io_def lift_b_def lift_def print_def)
next
  case (Inr u)
  have nr: "\<not> v_reuse Lc"
    using assms(2) by (auto simp: choose_account_eq Inr split: if_splits prod.splits sum.splits)
  have dis: "tag \<in> reuse_tags \<Longrightarrow> tag \<notin> fresh_tags" for tag
    by (auto simp: reuse_tags_def fresh_tags_def)
  show ?thesis
  proof (cases "v_temp_address Lc")
    case None
    with assms Inr show ?thesis
      by (auto simp: cycle_body_def b_defs f_defs print_def raise_def)
  next
    case (Some a)
    note a = this
    show ?thesis
    proof (cases "v_temp_private_key Lc")
      case None
      with assms Inr a show ?thesis
        by (auto simp: cycle_body_def b_defs f_defs print_def raise_def)
    next
      case (Some k)
      let ?w1 = "emit (Print ''Private key: {temp_private_key}'')
                   (emit (Print ''Generated temporary address: {temp_address}'') wc)"
      obtain rb w2 where gb: "get_balance E a ?w1 = (rb, w2)" by (cases "get_balance E a ?w1")
      show ?thesis
      proof (cases rb)
        case (Inl e)
        with assms Inr a Some gb show ?thesis
          by (auto simp: cycle_body_def b_defs f_defs print_def)
      next
        case (Inr init)
        let ?w3 = "emit (Print ''Initial balance: {initial_balance} ETH'') w2"
        from assms \<open>rc = Inr u\<close> a Some gb Inr
        obtain rf Lf wf where fl: "faucet_loop n E tf r k a init Lc ?w3 = Some (rf, Lf, wf)"
          and fin: "(case rf of Inl e \<Rightarrow> res = Inl e \<and> L' = Lf \<and> w' = wf
                     | Inr tag \<Rightarrow> res = Inr tag \<and> L' = Lf)"
          by (auto simp: cycle_body_def b_defs f_defs print_def split: option.splits sum.splits prod.splits)
        from faucet_loop_locals [OF fl] fin nr a Some dis \<open>rc = Inr u\<close> show ?thesis
          by (auto split: sum.splits)
      qed
    qed
  qed
qed


text \<open>
  C3, amended: take a cycle that ends with a tag, and the cycle after it. The tag is one
  of the four reusing tags or one of Success, UnknownFailure, RateLimited. After
  MaxRetriesExceeded, TransactionReplaced, ReplacementUnderpriced or TemporarilyForbidden
  the next cycle keeps the address and the key and asks the random source for nothing.
  After Success, UnknownFailure or RateLimited the next cycle calls
  \<^verbatim>\<open>generate_random_account\<close> and uses the account it returns (or ends with the exception
  it raises); nothing in the code compares that account with the previous one.
\<close>

theorem reuse_or_new_account:
  "cycle_body n E tf r L w = Some (Inr tag, L1, w1)
   \<and> cycle_body m E tf r L1 w1 = Some (res, L2, w2) \<longrightarrow>
     (tag \<in> reuse_tags \<or> tag \<in> fresh_tags)
     \<and> (tag \<in> reuse_tags \<longrightarrow>
          v_temp_address L2 = v_temp_address L1 \<and> v_temp_private_key L2 = v_temp_private_key L1
          \<and> choose_account E L1 (emit (Print ''Cycle #{cycle}'') w1) =
              Some (Inr (), L1\<lparr>v_reuse := False\<rparr>,
                    emit (Print ''Reusing address from previous cycle: {temp_address}'')
                      (emit (Print ''Cycle #{cycle}'') w1)))
     \<and> (tag \<in> fresh_tags \<longrightarrow>
          (case generate_random_account E (emit (Print ''Cycle #{cycle}'') w1) of
             (Inr (k', a'), u) \<Rightarrow> v_temp_address L2 = Some a' \<and> v_temp_private_key L2 = Some k'
           | (Inl e, u) \<Rightarrow> res = Inl e \<and> L2 = L1 \<and> w2 = u))"
proof (intro impI, elim conjE)
  assume c1: "cycle_body n E tf r L w = Some (Inr tag, L1, w1)"
    and c2: "cycle_body m E tf r L1 w1 = Some (res, L2, w2)"
  let ?w = "emit (Print ''Cycle #{cycle}'') w"
  let ?w1 = "emit (Print ''Cycle #{cycle}'') w1"
  obtain rc Lc wc where ch1: "choose_account E L ?w = Some (rc, Lc, wc)"
    by (cases "choose_account E L ?w") (auto simp: choose_account_eq split: prod.splits sum.splits if_splits)
  from cycle_body_result [OF c1 ch1]
  have tags: "tag \<in> reuse_tags \<or> tag \<in> fresh_tags" and reuse: "v_reuse L1 = (tag \<in> reuse_tags)"
    by auto
  have dis: "tag \<in> fresh_tags \<Longrightarrow> tag \<notin> reuse_tags"
    by (auto simp: reuse_tags_def fresh_tags_def)
  obtain rc2 Lc2 wc2 where ch2: "choose_account E L1 ?w1 = Some (rc2, Lc2, wc2)"
    by (cases "choose_account E L1 ?w1") (auto simp: choose_account_eq split: prod.splits sum.splits if_splits)
  note r2 = cycle_body_result [OF c2 ch2]
  have A: "v_temp_address L2 = v_temp_address L1 \<and> v_temp_private_key L2 = v_temp_private_key L1
          \<and> choose_account E L1 ?w1 =
              Some (Inr (), L1\<lparr>v_reuse := False\<rparr>,
                    emit (Print ''Reusing address from previous cycle: {temp_address}'') ?w1)"
    if "tag \<in> reuse_tags"
    using that reuse r2 ch2 by (auto simp: choose_account_eq)
  have B: "(case generate_random_account E ?w1 of
             (Inr (k', a'), u) \<Rightarrow> v_temp_address L2 = Some a' \<and> v_temp_private_key L2 = Some k'
           | (Inl e, u) \<Rightarrow> res = Inl e \<and> L2 = L1 \<and> w2 = u)"
    if "tag \<in> fresh_tags"
    using dis [OF that] reuse r2 ch2
    by (auto simp: choose_account_eq split: prod.splits sum.splits)
  from tags A B
  show "(tag \<in> reuse_tags \<or> tag \<in> fresh_tags)
     \<and> (tag \<in> reuse_tags \<longrightarrow>
          v_temp_address L2 = v_temp_address L1 \<and> v_temp_private_key L2 = v_temp_private_key L1
          \<and> choose_account E L1 ?w1 =
              Some (Inr (), L1\<lparr>v_reuse := False\<rparr>,
                    emit (Print ''Reusing address from previous cycle: {temp_address}'') ?w1))
     \<and> (tag \<in> fresh_tags \<longrightarrow>
          (case generate_random_account E ?w1 of
             (Inr (k', a'), u) \<Rightarrow> v_temp_address L2 = Some a' \<and> v_temp_private_key L2 = Some k'
           | (Inl e, u) \<Rightarrow> res = Inl e \<and> L2 = L1 \<and> w2 = u))"
    by blast
qed


lemma request_faucet_failed:
  assumes "tor_newnym E = (\<lambda>k. Inr ())" "sleep_interrupted E = (\<lambda>k. False)"
    "requests_post E = (\<lambda>k a. Inr (code, body))" "code \<noteq> 200"
  shows "request_faucet_funds E a w =
     (Inr (False, body),
      \<lparr>calls = calls w + 3,
       trace = trace w @
               [Print ''Preparing new IP for faucet request to {address}...'', TorNewnym,
                Print ''Changed to new Tor identity (unique IP) on attempt {attempt + 1}'', Sleep 3,
                Print ''Requesting funds for {address} with new IP...'', HttpPost a,
                Print ''  Response: {response.status_code}'',
                Print ''Faucet request failed: {response.status_code}'',
                Print ''  Raw response: {response.content}'']\<rparr>)"
  using assms
  by (simp add: request_faucet_funds_def change_tor_identity_def io_defs numeral_3_eq_3)

lemma get_balance_zero:
  assumes "eth_get_balance E = (\<lambda>k a. Inr 0)" "from_wei E = lib_from_wei"
  shows "get_balance E a w = (Inr 0, \<lparr>calls = Suc (calls w), trace = trace w @ [EthGetBalance a]\<rparr>)"
  using assms by (simp add: get_balance_def io_defs lib_from_wei_def)

lemma cycle_idle:
  assumes E: "tor_newnym E = (\<lambda>k. Inr ())" "sleep_interrupted E = (\<lambda>k. False)"
    "requests_post E = (\<lambda>k a. Inr (500, body))"
    "eth_get_balance E = (\<lambda>k a. Inr 0)" "from_wei E = lib_from_wei"
    "account_from_key E = (\<lambda>k. Inr (''0x'' @ k))"
    and tag: "classify body = tag" "tag \<in> reuse_tags \<or> tag = UnknownFailure"
    and key: "v_reuse L \<or> os_urandom E (calls w) = Inr key"
    and old: "v_reuse L \<longrightarrow> v_temp_address L = Some (''0x'' @ key) \<and> v_temp_private_key L = Some key"
  shows "account_after (cycle_body (Suc 0) E tf r L w) =
           Some (Inr tag, Some (''0x'' @ key),
                 length (filter (\<lambda>ev. ev = Urandom) (trace w)) + (if v_reuse L then 0 else 1))
         \<and> map_option (v_reuse \<circ> fst \<circ> snd) (cycle_body (Suc 0) E tf r L w) = Some (tag \<in> reuse_tags)"
proof (cases "v_reuse L")
  case True
  with old tag E show ?thesis
    apply (simp add: account_after_def cycle_body_def choose_account_eq b_defs f_defs
        request_faucet_failed get_balance_zero print_def emit_def)
    apply (auto simp: reuse_tags_def b_defs f_defs print_def emit_def next_cycle_eq reuse_next_cycle_eq)
    done
next
  case False
  with key tag E show ?thesis
    apply (simp add: account_after_def cycle_body_def choose_account_eq generate_random_account_def io_defs
        b_defs f_defs request_faucet_failed get_balance_zero)
    apply (auto simp: reuse_tags_def b_defs f_defs print_def emit_def next_cycle_eq reuse_next_cycle_eq)
    done
qed


lemma two_rounds:
  assumes E: "tor_newnym E = (\<lambda>k. Inr ())" "sleep_interrupted E = (\<lambda>k. False)"
    "requests_post E = (\<lambda>k a. Inr (500, body))"
    "eth_get_balance E = (\<lambda>k a. Inr 0)" "from_wei E = lib_from_wei"
    "account_from_key E = (\<lambda>k. Inr (''0x'' @ k))"
    and tag: "classify body = tag" "tag \<in> reuse_tags \<or> tag = UnknownFailure"
    and key: "os_urandom E 0 = Inr key1" "\<forall>k>0. os_urandom E k = Inr key2"
  shows "\<exists>L1 w1 res L2 w2.
           cycle_body 1 E tf r L0 w0 = Some (Inr tag, L1, w1)
           \<and> cycle_body 1 E tf r L1 w1 = Some (res, L2, w2)
           \<and> account_after (cycle_body 1 E tf r L0 w0) = Some (Inr tag, Some (''0x'' @ key1), 1)
           \<and> account_after (cycle_body 1 E tf r L1 w1) =
               Some (Inr tag, Some (''0x'' @ (if tag \<in> reuse_tags then key1 else key2)),
                     if tag \<in> reuse_tags then 1 else 2)"
proof -
  have k0: "v_reuse L0 \<or> os_urandom E (calls w0) = Inr key1"
    using key by (simp add: w0_def)
  have o0: "v_reuse L0 \<longrightarrow> v_temp_address L0 = Some (''0x'' @ key1) \<and> v_temp_private_key L0 = Some key1"
    by (simp add: L0_def)
  note c1 = cycle_idle [OF E tag k0 o0, of tf r]
  then obtain res1 L1 w1 where r1: "cycle_body (Suc 0) E tf r L0 w0 = Some (res1, L1, w1)"
    by (cases "cycle_body (Suc 0) E tf r L0 w0") (auto simp: account_after_def)
  with c1 have f1: "res1 = Inr tag" "v_temp_address L1 = Some (''0x'' @ key1)"
      "length (filter (\<lambda>ev. ev = Urandom) (trace w1)) = 1" "v_reuse L1 = (tag \<in> reuse_tags)"
    by (auto simp: account_after_def L0_def w0_def)
  have pk1: "v_temp_private_key L1 = Some key1"
  proof -
    have "choose_account E L0 (emit (Print ''Cycle #{cycle}'') w0) =
            Some (Inr (), L0\<lparr>v_temp_address := Some (''0x'' @ key1), v_temp_private_key := Some key1\<rparr>,
                  (emit Urandom (emit (Print ''Cycle #{cycle}'') w0))\<lparr>calls := Suc 0\<rparr>)"
      using key(1) E(6)
      by (simp add: choose_account_eq generate_random_account_def io_defs L0_def w0_def)
    from cycle_body_result [OF r1 this] show ?thesis by simp
  qed
  have cw1: "0 < calls w1"
  proof -
    have "\<exists>u. cycle_body (Suc 0) E tf r L0 w0 = Some (Inr tag, u) \<and> 0 < calls (snd u)"
      using key(1) E tag
      apply (simp add: cycle_body_def choose_account_eq generate_random_account_def io_defs
        b_defs f_defs request_faucet_failed get_balance_zero L0_def w0_def)
      apply (auto simp: reuse_tags_def b_defs f_defs print_def emit_def next_cycle_eq reuse_next_cycle_eq)
      done
    with r1 show ?thesis by auto
  qed
  have k1: "v_reuse L1 \<or> os_urandom E (calls w1) = Inr key2"
    using key(2) cw1 by simp
  show ?thesis
  proof (cases "tag \<in> reuse_tags")
    case True
    have o1: "v_reuse L1 \<longrightarrow> v_temp_address L1 = Some (''0x'' @ key1) \<and> v_temp_private_key L1 = Some key1"
      using f1 pk1 by simp
    have k1': "v_reuse L1 \<or> os_urandom E (calls w1) = Inr key1"
      using f1 True by simp
    note c2 = cycle_idle [OF E tag k1' o1, of tf r]
    then obtain res2 L2 w2 where r2: "cycle_body (Suc 0) E tf r L1 w1 = Some (res2, L2, w2)"
      by (cases "cycle_body (Suc 0) E tf r L1 w1") (auto simp: account_after_def)
    from c1 c2 r1 r2 f1 True show ?thesis
      by (auto simp: L0_def w0_def)
  next
    case False
    have o1: "v_reuse L1 \<longrightarrow> v_temp_address L1 = Some (''0x'' @ key2) \<and> v_temp_private_key L1 = Some key2"
      using f1 False by simp
    note c2 = cycle_idle [OF E tag k1 o1, of tf r]
    then obtain res2 L2 w2 where r2: "cycle_body (Suc 0) E tf r L1 w1 = Some (res2, L2, w2)"
      by (cases "cycle_body (Suc 0) E tf r L1 w1") (auto simp: account_after_def)
    from c1 c2 r1 r2 f1 False show ?thesis
      by (auto simp: L0_def w0_def)
  qed
qed

text \<open>
  C3, as the claim states it, fails: the claim promises an address that differs after
  UnknownFailure. The random source returns the same 32 bytes twice: the first cycle ends
  with UnknownFailure, the second cycle draws a second key, and its address is the address
  of the first.
\<close>

theorem same_key_counterexample:
  "account_after (cycle_body 1 idle_env (transfer_funds idle_env) ''0xR'' L0 w0)
     = Some (Inr UnknownFailure, Some ''0x11'', 1)
   \<and> account_after
       (next_round 1 idle_env (transfer_funds idle_env) ''0xR''
          (cycle_body 1 idle_env (transfer_funds idle_env) ''0xR'' L0 w0))
     = Some (Inr UnknownFailure, Some ''0x11'', 2)"
proof -
  have "UnknownFailure \<notin> reuse_tags" by (simp add: reuse_tags_def)
  with two_rounds [of idle_env "[]" UnknownFailure "''11''" "''11''" "transfer_funds idle_env" "''0xR''"]
  show ?thesis
    by (auto simp: idle_env_def classify_def next_round_def)
qed


theorem reuse_or_new_account_witness:
  "account_after (cycle_body 1 replaced_env (transfer_funds replaced_env) ''0xR'' L0 w0)
     = Some (Inr TransactionReplaced, Some ''0x11'', 1)
   \<and> TransactionReplaced \<in> reuse_tags
   \<and> map_option (fst \<circ> snd)
        (account_after
          (next_round 1 replaced_env (transfer_funds replaced_env) ''0xR''
            (cycle_body 1 replaced_env (transfer_funds replaced_env) ''0xR'' L0 w0)))
     = Some (Some ''0x11'')
   \<and> account_after (cycle_body 1 two_keys_env (transfer_funds two_keys_env) ''0xR'' L0 w0)
     = Some (Inr UnknownFailure, Some ''0x11'', 1)
   \<and> UnknownFailure \<in> fresh_tags
   \<and> map_option (fst \<circ> snd)
        (account_after
          (next_round 1 two_keys_env (transfer_funds two_keys_env) ''0xR''
            (cycle_body 1 two_keys_env (transfer_funds two_keys_env) ''0xR'' L0 w0)))
     = Some (Some ''0x22'')"
proof -
  let ?tf = "transfer_funds replaced_env"
  have tr: "TransactionReplaced \<in> reuse_tags" by (simp add: reuse_tags_def)
  have "classify ''TRANSACTION_REPLACED'' = TransactionReplaced" by (simp add: classify_def)
  from two_rounds [of replaced_env "''TRANSACTION_REPLACED''" TransactionReplaced "''11''" "''11''" ?tf "''0xR''"]
    this tr
  obtain L1 w1 res L2 w2 where
    c1: "cycle_body 1 replaced_env ?tf ''0xR'' L0 w0 = Some (Inr TransactionReplaced, L1, w1)"
    and c2: "cycle_body 1 replaced_env ?tf ''0xR'' L1 w1 = Some (res, L2, w2)"
    and a1: "account_after (cycle_body 1 replaced_env ?tf ''0xR'' L0 w0)
               = Some (Inr TransactionReplaced, Some ''0x11'', 1)"
    by (auto simp: replaced_env_def idle_env_def)
  from reuse_or_new_account [of 1 replaced_env ?tf "''0xR''" L0 w0 TransactionReplaced L1 w1 1 res L2 w2]
    c1 c2 tr
  have "v_temp_address L2 = v_temp_address L1" by simp
  moreover from a1 c1 have "v_temp_address L1 = Some ''0x11''"
    by (simp add: account_after_def)
  ultimately have A: "map_option (fst \<circ> snd)
        (account_after (next_round 1 replaced_env ?tf ''0xR'' (cycle_body 1 replaced_env ?tf ''0xR'' L0 w0)))
     = Some (Some ''0x11'')"
    using c1 c2 by (simp add: next_round_def account_after_def)
  let ?tg = "transfer_funds two_keys_env"
  have uf: "UnknownFailure \<in> fresh_tags" by (simp add: fresh_tags_def)
  have nuf: "UnknownFailure \<notin> reuse_tags" by (simp add: reuse_tags_def)
  have "classify [] = UnknownFailure" by (simp add: classify_def)
  from two_rounds [of two_keys_env "[]" UnknownFailure "''11''" "''22''" ?tg "''0xR''"] this nuf
  obtain M1 u1 res' M2 u2 where
    d1: "cycle_body 1 two_keys_env ?tg ''0xR'' L0 w0 = Some (Inr UnknownFailure, M1, u1)"
    and d2: "cycle_body 1 two_keys_env ?tg ''0xR'' M1 u1 = Some (res', M2, u2)"
    and b1: "account_after (cycle_body 1 two_keys_env ?tg ''0xR'' L0 w0)
               = Some (Inr UnknownFailure, Some ''0x11'', 1)"
    and b2: "account_after (cycle_body 1 two_keys_env ?tg ''0xR'' M1 u1)
               = Some (Inr UnknownFailure, Some ''0x22'', 2)"
    by (auto simp: two_keys_env_def idle_env_def)
  have B: "map_option (fst \<circ> snd)
        (account_after (next_round 1 two_keys_env ?tg ''0xR'' (cycle_body 1 two_keys_env ?tg ''0xR'' L0 w0)))
     = Some (Some ''0x22'')"
    using d1 d2 b2 by (simp add: next_round_def account_after_def)
  from a1 tr A b1 uf B show ?thesis by (intro conjI)
qed

subsection \<open>Exceptions of a round\<close>

lemma run_loop_stops:
  "run_loop n E tf r L w = Some (res, L', w') \<Longrightarrow>
     (\<forall>e. res \<noteq> Inl (Exception e))
     \<and> (res = Inr () \<longrightarrow>
          (\<exists>m La wa wb. cycle_body m E tf r La wa = Some (Inl KeyboardInterrupt, L', wb)
             \<and> w' = emit (Print ''Bot stopped by user'') wb))
     \<and> (res = Inl KeyboardInterrupt \<longrightarrow> (\<exists>k. sleep_interrupted E k))"
proof (induction n arbitrary: L w)
  case 0
  then show ?case by simp
next
  case (Suc n)
  show ?case
  proof (cases "cycle_body n E tf r L w")
    case None
    with Suc.prems show ?thesis by simp
  next
    case (Some x)
    obtain rc L1 w1 where x: "x = (rc, L1, w1)" by (cases x)
    show ?thesis
    proof (cases rc)
      case (Inr tag)
      with Suc.prems Some x have "run_loop n E tf r L1 w1 = Some (res, L', w')" by simp
      from Suc.IH [OF this] show ?thesis .
    next
      case (Inl ex)
      show ?thesis
      proof (cases ex)
        case KeyboardInterrupt
        with Suc.prems Some x Inl have "res = Inr ()" "L' = L1" "w' = emit (Print ''Bot stopped by user'') w1"
          by (simp_all add: b_defs f_defs print_def)
        with Some x Inl KeyboardInterrupt show ?thesis by auto
      next
        case (Exception e)
        let ?w2 = "emit (Print ''Retrying in {self.request_delay} seconds...'')
                     (emit (Print ''Unexpected error in cycle #{cycle}: {e}'') w1)"
        show ?thesis
        proof (cases "sleep_interrupted E (calls ?w2)")
          case True
          with Suc.prems Some x Inl Exception have "res = Inl KeyboardInterrupt"
            by (simp add: b_defs f_defs print_def sleep_def extern_def)
          with True show ?thesis by auto
        next
          case False
          with Suc.prems Some x Inl Exception
          have "run_loop n E tf r L1 ((emit (Sleep request_delay) ?w2)\<lparr>calls := Suc (calls ?w2)\<rparr>)
                  = Some (res, L', w')"
            by (simp add: b_defs f_defs print_def sleep_def extern_def)
          from Suc.IH [OF this] show ?thesis .
        qed
      qed
    qed
  qed
qed

text \<open>
  C7: an \<^verbatim>\<open>Exception\<close> raised inside a round is caught at the round's boundary: two
  lines are printed, the loop sleeps \<^verbatim>\<open>request_delay\<close> (1) and the next round starts from
  the local variables as the exception left them. Whenever the loop, or \<^verbatim>\<open>run_bot\<close>,
  returns at all, it is never with an \<^verbatim>\<open>Exception\<close>: either a round raised
  \<^verbatim>\<open>KeyboardInterrupt\<close> and the loop ended after printing "Bot stopped by user", or the
  operator's interrupt arrived during the handler's own sleep.
\<close>

theorem cycle_errors_never_stop_the_loop:
  "(cycle_body n E tf r L w = Some (Inl (Exception e), L1, w1) \<and> \<not> sleep_interrupted E (calls w1) \<longrightarrow>
      run_loop (Suc n) E tf r L w =
        run_loop n E tf r L1
          ((emit (Sleep request_delay)
             (emit (Print ''Retrying in {self.request_delay} seconds...'')
               (emit (Print ''Unexpected error in cycle #{cycle}: {e}'') w1)))\<lparr>calls := Suc (calls w1)\<rparr>))
   \<and> (run_loop n E tf r L w = Some (res, L', w') \<longrightarrow>
        (\<forall>x. res \<noteq> Inl (Exception x))
        \<and> (res = Inr () \<longrightarrow>
             (\<exists>m La wa wb. cycle_body m E tf r La wa = Some (Inl KeyboardInterrupt, L', wb)
                \<and> w' = emit (Print ''Bot stopped by user'') wb))
        \<and> (res = Inl KeyboardInterrupt \<longrightarrow> (\<exists>k. sleep_interrupted E k)))
   \<and> (run_bot n E tf r L w = Some (res, L', w') \<longrightarrow>
        (\<forall>x. res \<noteq> Inl (Exception x))
        \<and> (res = Inr () \<longrightarrow>
             (\<exists>m La wa wb. cycle_body m E tf r La wa = Some (Inl KeyboardInterrupt, L', wb)
                \<and> w' = emit (Print ''Bot stopped by user'') wb))
        \<and> (res = Inl KeyboardInterrupt \<longrightarrow> (\<exists>k. sleep_interrupted E k)))"
proof (intro conjI impI)
  assume "cycle_body n E tf r L w = Some (Inl (Exception e), L1, w1) \<and> \<not> sleep_interrupted E (calls w1)"
  then show "run_loop (Suc n) E tf r L w =
        run_loop n E tf r L1
          ((emit (Sleep request_delay)
             (emit (Print ''Retrying in {self.request_delay} seconds...'')
               (emit (Print ''Unexpected error in cycle #{cycle}: {e}'') w1)))\<lparr>calls := Suc (calls w1)\<rparr>)"
    by (simp add: b_defs f_defs print_def sleep_def extern_def emit_def)
next
  assume a: "run_loop n E tf r L w = Some (res, L', w')"
  from run_loop_stops [OF a] show "\<forall>x. res \<noteq> Inl (Exception x)" by simp
  from run_loop_stops [OF a]
  show "res = Inr () \<Longrightarrow> \<exists>m La wa wb. cycle_body m E tf r La wa = Some (Inl KeyboardInterrupt, L', wb)
                \<and> w' = emit (Print ''Bot stopped by user'') wb"
    by simp
  from run_loop_stops [OF a] show "res = Inl KeyboardInterrupt \<Longrightarrow> \<exists>k. sleep_interrupted E k" by simp
next
  assume "run_bot n E tf r L w = Some (res, L', w')"
  then obtain Li wi where a: "run_loop n E tf r Li wi = Some (res, L', w')"
    by (auto simp: run_bot_def b_defs f_defs print_def)
  from run_loop_stops [OF a] show "\<forall>x. res \<noteq> Inl (Exception x)" by simp
  from run_loop_stops [OF a]
  show "res = Inr () \<Longrightarrow> \<exists>m La wa wb. cycle_body m E tf r La wa = Some (Inl KeyboardInterrupt, L', wb)
                \<and> w' = emit (Print ''Bot stopped by user'') wb"
    by simp
  from run_loop_stops [OF a] show "res = Inl KeyboardInterrupt \<Longrightarrow> \<exists>k. sleep_interrupted E k" by simp
qed


theorem cycle_errors_never_stop_the_loop_witness:
  "cycle_body 1 no_entropy_env (transfer_funds no_entropy_env) ''0xR'' L0 w0 =
     Some (Inl (Exception (OtherException ''NotImplementedError'')), L0,
           \<lparr>calls = 1, trace = [Print ''Cycle #{cycle}'', Urandom]\<rparr>)
   \<and> \<not> sleep_interrupted no_entropy_env 1
   \<and> run_loop 2 no_entropy_env (transfer_funds no_entropy_env) ''0xR'' L0 w0 =
       Some (Inr (), L0,
             \<lparr>calls = 3,
              trace = [Print ''Cycle #{cycle}'', Urandom,
                       Print ''Unexpected error in cycle #{cycle}: {e}'',
                       Print ''Retrying in {self.request_delay} seconds...'', Sleep 1,
                       Print ''Cycle #{cycle}'', Urandom,
                       Print ''Bot stopped by user'']\<rparr>)"
proof -
  let ?E = no_entropy_env
  let ?tf = "transfer_funds no_entropy_env"
  let ?w1 = "\<lparr>calls = 1, trace = [Print ''Cycle #{cycle}'', Urandom]\<rparr>"
  have c1: "cycle_body (Suc 0) ?E ?tf ''0xR'' L0 w0 =
     Some (Inl (Exception (OtherException ''NotImplementedError'')), L0, ?w1)"
    by (simp add: cycle_body_def choose_account_def generate_random_account_def b_defs f_defs io_defs
          no_entropy_env_def idle_env_def L0_def w0_def)
  have s1: "\<not> sleep_interrupted ?E (calls ?w1)"
    by (simp add: no_entropy_env_def idle_env_def)
  from cycle_errors_never_stop_the_loop [of "Suc 0" ?E ?tf "''0xR''" L0 w0
      "OtherException ''NotImplementedError''" L0 ?w1, THEN conjunct1, rule_format] c1 s1
  have "run_loop (Suc (Suc 0)) ?E ?tf ''0xR'' L0 w0 =
        run_loop (Suc 0) ?E ?tf ''0xR'' L0
          ((emit (Sleep request_delay)
             (emit (Print ''Retrying in {self.request_delay} seconds...'')
               (emit (Print ''Unexpected error in cycle #{cycle}: {e}'') ?w1)))\<lparr>calls := Suc (calls ?w1)\<rparr>)"
    by simp
  also have "\<dots> = Some (Inr (), L0,
             \<lparr>calls = 3,
              trace = [Print ''Cycle #{cycle}'', Urandom,
                       Print ''Unexpected error in cycle #{cycle}: {e}'',
                       Print ''Retrying in {self.request_delay} seconds...'', Sleep 1,
                       Print ''Cycle #{cycle}'', Urandom,
                       Print ''Bot stopped by user'']\<rparr>)"
    by (simp add: cycle_body_def choose_account_def generate_random_account_def b_defs f_defs io_defs
          no_entropy_env_def idle_env_def L0_def request_delay_def)
  finally have r: "run_loop (Suc (Suc 0)) ?E ?tf ''0xR'' L0 w0 = Some (Inr (), L0,
             \<lparr>calls = 3,
              trace = [Print ''Cycle #{cycle}'', Urandom,
                       Print ''Unexpected error in cycle #{cycle}: {e}'',
                       Print ''Retrying in {self.request_delay} seconds...'', Sleep 1,
                       Print ''Cycle #{cycle}'', Urandom,
                       Print ''Bot stopped by user'']\<rparr>)" .
  have two: "(2::nat) = Suc (Suc 0)" by simp
  from c1 s1 r show ?thesis
    by (simp only: two One_nat_def world.simps) simp
qed

subsection \<open>The sweep as written, and the block meant as its body\<close>

text \<open>
  C1 does not hold of the method as it is written. The claim describes the block of lines
  159-203, which the source places outside the method (see \<open>transfer_funds\<close> above).
  With one ether on the account and a gas price of one gwei, so that the balance exceeds
  the fee of 21000 gwei, the method returns \<^verbatim>\<open>None\<close>, which its callers take for a
  failure, and leaves the world untouched: no balance is read, no transaction is built,
  signed or sent. On the same input the block, had it been the body, would have signed one
  transaction of value 999979000000000000 (one ether less 21000 gwei) and returned
  \<^verbatim>\<open>True\<close>.
\<close>

theorem transfer_funds_as_written:
  "transfer_funds funded_env ''11'' ''0x11'' ''0xR'' 1 w0 = (Inr None, w0)
   \<and> \<not> truthy None
   \<and> transfer_funds_block funded_env ''11'' ''0x11'' ''0xR'' 1 w0 =
       (Inr (Some True),
        \<lparr>calls = 6,
         trace = [EthGetTransactionCount ''0x11'', EthGasPrice, EthGetBalance ''0x11'',
                  SignTransaction \<lparr>tx_nonce = 0, tx_to = ''0xR'', tx_value = 999979000000000000,
                                   tx_gas = 21000, tx_gasPrice = 1000000000\<rparr> ''11'',
                  SendRawTransaction ''signed'',
                  Print ''Transfer initiated! TX Hash: {tx_hash.hex()}'',
                  Print ''Sent {send_amount_eth:.18f} ETH to {to_address}'',
                  Print ''Waiting for 1 block confirmation...'',
                  WaitForReceipt ''hash'',
                  Print ''Transfer confirmed! Block: {tx_receipt.blockNumber}'']\<rparr>)"
  by (simp add: transfer_funds_def transfer_funds_block_def truthy_def io_defs funded_env_def
        idle_env_def lib_from_wei_def w0_def Let_def)

text \<open>
  The block of lines 159-203 itself does what its docstring says, for a balance \<open>B\<close> read
  inside the call and the fee \<open>21000 * gas_price\<close>, when the nonce, the gas price and the
  balance are read without error and the amounts convert for printing: above the fee it
  signs exactly one transaction, of value \<open>B - 21000 * gas_price > 0\<close>, and sends at most
  that one; at or below the fee it neither signs nor sends, and does not report success.
\<close>

lemma transfer_funds_block_sweep:
  assumes "eth_get_transaction_count E (calls w) a = Inr nonce"
    and "eth_gas_price E (Suc (calls w)) = Inr gas_price"
    and "eth_get_balance E (Suc (Suc (calls w))) a = Inr B"
    and "from_wei E (21000 * gas_price) = Inr c1" and "from_wei E B = Inr c2"
  shows "21000 * gas_price < B \<Longrightarrow> from_wei E (B - 21000 * gas_price) = Inr c3 \<Longrightarrow>
         0 < B - 21000 * gas_price \<and>
         (\<exists>rest. chain_writes (snd (transfer_funds_block E pk a r amount w)) =
                  chain_writes w @
                  SignTransaction \<lparr>tx_nonce = nonce, tx_to = r, tx_value = B - 21000 * gas_price,
                                   tx_gas = 21000, tx_gasPrice = gas_price\<rparr> pk # rest
                \<and> (rest = [] \<or> (\<exists>raw. rest = [SendRawTransaction raw])))"
    and "B \<le> 21000 * gas_price \<Longrightarrow>
         fst (transfer_funds_block E pk a r amount w) \<noteq> Inr (Some True)
         \<and> fst (transfer_funds_block E pk a r amount w) \<noteq> Inr None
         \<and> chain_writes (snd (transfer_funds_block E pk a r amount w)) = chain_writes w"
proof -
  show "0 < B - 21000 * gas_price \<and>
         (\<exists>rest. chain_writes (snd (transfer_funds_block E pk a r amount w)) =
                  chain_writes w @
                  SignTransaction \<lparr>tx_nonce = nonce, tx_to = r, tx_value = B - 21000 * gas_price,
                                   tx_gas = 21000, tx_gasPrice = gas_price\<rparr> pk # rest
                \<and> (rest = [] \<or> (\<exists>raw. rest = [SendRawTransaction raw])))"
    if "21000 * gas_price < B" "from_wei E (B - 21000 * gas_price) = Inr c3"
    using that assms
    by (auto simp: transfer_funds_block_def io_defs Let_def chain_writes_def
          split: sum.splits raised.splits prod.splits)
  show "fst (transfer_funds_block E pk a r amount w) \<noteq> Inr (Some True)
         \<and> fst (transfer_funds_block E pk a r amount w) \<noteq> Inr None
         \<and> chain_writes (snd (transfer_funds_block E pk a r amount w)) = chain_writes w"
    if "B \<le> 21000 * gas_price"
    using that assms
    by (auto simp: transfer_funds_block_def io_defs Let_def chain_writes_def
          split: sum.splits raised.splits prod.splits)
qed

end
